theory Spec2Isabelle
  imports Main "HOL-Library.Sublist"
begin

section \<open>Go strings\<close>

text \<open>
  A Go \<open>string\<close> is a sequence of bytes; \<open>len\<close>, slicing, \<open>strings.HasPrefix\<close>,
  \<open>strings.Index\<close> and \<open>strings.Contains\<close> all work on bytes. A string is modelled as a
  \<^typ>\<open>char list\<close>, one \<^typ>\<open>char\<close> per byte.
\<close>

abbreviation NL :: char where
  "NL \<equiv> CHR 0x0A"

abbreviation BQ :: char where
  "BQ \<equiv> CHR 0x60"

definition strings_HasPrefix :: "string \<Rightarrow> string \<Rightarrow> bool" where
  "strings_HasPrefix s p = prefix p s"

definition strings_HasSuffix :: "string \<Rightarrow> string \<Rightarrow> bool" where
  "strings_HasSuffix s p = suffix p s"

text \<open>\<open>strings.Index(s, sub)\<close>: the first position where \<open>sub\<close> occurs; \<open>None\<close> is Go's \<open>-1\<close>.\<close>

fun strings_Index :: "string \<Rightarrow> string \<Rightarrow> nat option" where
  "strings_Index [] sub = (if sub = [] then Some 0 else None)"
| "strings_Index (c # cs) sub =
     (if prefix sub (c # cs) then Some 0 else map_option Suc (strings_Index cs sub))"

definition strings_Contains :: "string \<Rightarrow> string \<Rightarrow> bool" where
  "strings_Contains s sub = (strings_Index s sub \<noteq> None)"

fun strings_Join :: "string list \<Rightarrow> string \<Rightarrow> string" where
  "strings_Join [] sep = []"
| "strings_Join [e] sep = e"
| "strings_Join (e # e' # elems) sep = e @ sep @ strings_Join (e' # elems) sep"

text \<open>\<open>strings.Split(s, sep)\<close> for a one-byte separator: always at least one field.\<close>

fun strings_Split :: "string \<Rightarrow> char \<Rightarrow> string list" where
  "strings_Split [] sep = [[]]"
| "strings_Split (c # cs) sep =
     (if c = sep then [] # strings_Split cs sep
      else (case strings_Split cs sep of
              [] \<Rightarrow> [[c]]
            | field # fields \<Rightarrow> (c # field) # fields))"

text \<open>\<open>fmt.Sprintf("%d", n)\<close>: the decimal digits of an integer, with a minus sign.\<close>

function fmt_nat :: "nat \<Rightarrow> string" where
  "fmt_nat n = (if n < 10 then [''0123456789'' ! n]
                else fmt_nat (n div 10) @ [''0123456789'' ! (n mod 10)])"
  by pat_completeness auto
termination
  by (relation "measure id") auto

declare fmt_nat.simps [simp del]

definition fmt_d :: "int \<Rightarrow> string" where
  "fmt_d i = (if i < 0 then CHR ''-'' # fmt_nat (nat (- i)) else fmt_nat (nat i))"

section \<open>Byte-limited line extraction\<close>

record ExtractLinesResult =
  Content :: string
  WasLimited :: bool
  LinesRead :: nat

text \<open>
  The \<open>for\<close> loop of \<open>extractLinesWithByteLimit\<close>. Its state is \<open>linesSeen\<close>, \<open>index\<close> and
  \<open>contentLength\<close>; \<open>wasLimited\<close> is still \<open>false\<close> whenever the loop body starts, and each
  \<open>break\<close> returns the final (contentLength, wasLimited, linesSeen).
\<close>

function extractLoop :: "string \<Rightarrow> int \<Rightarrow> nat \<Rightarrow> nat \<Rightarrow> nat \<Rightarrow> nat \<times> bool \<times> nat" where
  "extractLoop fullContent maxContentLength linesSeen index contentLength =
     (case strings_Index (drop index fullContent) [NL] of
        None \<Rightarrow>
          if linesSeen > 0 \<and> int (length fullContent) > maxContentLength
          then (contentLength, True, linesSeen)
          else (length fullContent, False, linesSeen + 1)
      | Some k \<Rightarrow>
          let nextIndex = k + index;
              newContentLength = nextIndex + 1
          in if linesSeen > 0 \<and> int newContentLength > maxContentLength
             then (contentLength, True, linesSeen)
             else extractLoop fullContent maxContentLength (linesSeen + 1)
                    newContentLength newContentLength)"
  by pat_completeness auto

lemma strings_Index_less: "strings_Index s [c] = Some k \<Longrightarrow> k < length s"
  by (induction s arbitrary: k) (auto split: if_splits)

termination extractLoop
proof (relation "measure (\<lambda>(s, m, l, i, c). length s - i)", goal_cases)
  case 1
  show ?case by simp
next
  case (2 fullContent maxContentLength linesSeen index contentLength k nextIndex newLen)
  from strings_Index_less [OF 2(1)] have "k + index < length fullContent"
    by simp
  with 2 show ?case by simp
qed

definition extractLinesWithByteLimit :: "string \<Rightarrow> int \<Rightarrow> ExtractLinesResult" where
  "extractLinesWithByteLimit fullContent maxContentLength =
     (if fullContent = [] then \<lparr>Content = [], WasLimited = False, LinesRead = 1\<rparr>
      else case extractLoop fullContent maxContentLength 0 0 0 of
             (contentLength, wasLimited, linesSeen) \<Rightarrow>
               \<lparr>Content = take contentLength fullContent,
                WasLimited = wasLimited,
                LinesRead = linesSeen\<rparr>)"


subsection \<open>Properties of the extraction loop\<close>

declare extractLoop.simps [simp del]

lemma strings_Index_byte_found:
  "c \<notin> set l \<Longrightarrow> strings_Index (l @ c # r) [c] = Some (length l)"
  by (induction l) auto

lemma strings_Index_byte_none:
  "c \<notin> set l \<Longrightarrow> strings_Index l [c] = None"
  by (induction l) auto

text \<open>The loop never returns less than the content length it was entered with.\<close>

lemma extractLoop_mono:
  "cl \<le> i \<Longrightarrow> i \<le> length s \<Longrightarrow> cl \<le> fst (extractLoop s n ls i cl)"
proof (induction s n ls i cl rule: extractLoop.induct)
  case (1 s n ls i cl)
  show ?case
  proof (cases "strings_Index (drop i s) [NL]")
    case None
    with 1(2,3) show ?thesis by (subst extractLoop.simps) simp
  next
    case (Some k)
    from strings_Index_less [OF Some] have kl: "k + i + 1 \<le> length s" by simp
    show ?thesis
    proof (cases "ls > 0 \<and> int (k + i + 1) > n")
      case True
      with Some show ?thesis by (subst extractLoop.simps) simp
    next
      case False
      from 1(1) [OF Some refl refl False] kl
      have "k + i + 1 \<le> fst (extractLoop s n (ls + 1) (k + i + 1) (k + i + 1))" by simp
      with Some False 1(2) show ?thesis by (subst extractLoop.simps) (simp add: Let_def)
    qed
  qed
qed

lemma first_line_split:
  assumes "p \<noteq> []" "last p = c"
  obtains l p' where "p = l @ c # p'" "c \<notin> set l" "p' = [] \<or> last p' = c"
proof -
  from assms have "c \<in> set p" using last_in_set by metis
  then obtain l p' where p: "p = l @ c # p'" "c \<notin> set l"
    by (meson split_list_first)
  with assms have "p' = [] \<or> last p' = c" by (cases "p' = []") auto
  with p show ?thesis using that by blast
qed

text \<open>
  Entered at a line boundary \<open>length p1\<close> with whole lines \<open>p2\<close> still inside the limit and the
  line \<open>nxt\<close> after them crossing it, the loop consumes exactly \<open>p2\<close> and stops limited.
\<close>

lemma extractLoop_truncate:
  assumes "NL \<notin> set l" "nxt = l @ [NL] \<or> (nxt = l \<and> rest = [])"
    and "int (length (p1 @ p2)) \<le> n" "n < int (length (p1 @ p2 @ nxt))"
  shows "p2 = [] \<or> last p2 = NL \<Longrightarrow> (ls = 0 \<longrightarrow> p2 \<noteq> []) \<Longrightarrow>
     extractLoop (p1 @ p2 @ nxt @ rest) n ls (length p1) (length p1)
       = (length (p1 @ p2), True, ls + count_list p2 NL)"
  using assms(3,4)
proof (induction p2 arbitrary: p1 ls rule: length_induct)
  case (1 p2)
  show ?case
  proof (cases "p2 = []")
    case True
    with 1 have ls: "ls > 0" by simp
    from assms(2) show ?thesis
    proof
      assume n: "nxt = l @ [NL]"
      have "strings_Index (l @ NL # rest) [NL] = Some (length l)"
        using assms(1) by (rule strings_Index_byte_found)
      with True n ls 1(5) show ?thesis by (subst extractLoop.simps) (simp add: Let_def)
    next
      assume n: "nxt = l \<and> rest = []"
      have "strings_Index l [NL] = None"
        using assms(1) by (rule strings_Index_byte_none)
      with True n ls 1(5) show ?thesis by (subst extractLoop.simps) simp
    qed
  next
    case False
    with 1(2) have "last p2 = NL" by simp
    with False obtain l1 p2' where p2: "p2 = l1 @ NL # p2'" "NL \<notin> set l1" "p2' = [] \<or> last p2' = NL"
      by (rule first_line_split)
    have idx: "strings_Index (l1 @ NL # (p2' @ nxt @ rest)) [NL] = Some (length l1)"
      using p2(2) by (rule strings_Index_byte_found)
    have fits: "\<not> int (length l1 + length p1 + 1) > n"
      using 1(4) p2(1) by simp
    have "extractLoop ((p1 @ l1 @ [NL]) @ p2' @ nxt @ rest) n (ls + 1)
            (length (p1 @ l1 @ [NL])) (length (p1 @ l1 @ [NL]))
       = (length ((p1 @ l1 @ [NL]) @ p2'), True, (ls + 1) + count_list p2' NL)"
    proof -
      have "length p2' < length p2" using p2(1) by simp
      moreover have "int (length ((p1 @ l1 @ [NL]) @ p2')) \<le> n" using 1(4) p2(1) by simp
      moreover have "n < int (length ((p1 @ l1 @ [NL]) @ p2' @ nxt))" using 1(5) p2(1) by simp
      ultimately show ?thesis using 1(1) p2(3) by (metis add_is_0 zero_neq_one)
    qed
    moreover have "count_list p2 NL = 1 + count_list p2' NL"
      using p2(1,2) by (simp add: count_list_0_iff)
    ultimately show ?thesis
      using idx fits p2(1) by (subst extractLoop.simps) (simp add: Let_def add.commute)
  qed
qed

lemma extract_first_nl:
  assumes "NL \<notin> set l"
  shows "prefix (l @ [NL]) (Content (extractLinesWithByteLimit (l @ NL # r) n))"
proof -
  let ?s = "l @ NL # r"
  have idx: "strings_Index ?s [NL] = Some (length l)"
    using assms by (rule strings_Index_byte_found)
  obtain c w k where r: "extractLoop ?s n 1 (length l + 1) (length l + 1) = (c, w, k)"
    using prod_cases3 by blast
  have "length l + 1 \<le> fst (extractLoop ?s n 1 (length l + 1) (length l + 1))"
    by (rule extractLoop_mono) simp_all
  with r obtain d where d: "c = length l + 1 + d"
    by (auto simp: nat_le_iff_add)
  have "extractLoop ?s n 0 0 0 = (c, w, k)"
    using idx r by (subst extractLoop.simps) (simp add: Let_def)
  then have "Content (extractLinesWithByteLimit ?s n) = take c ?s"
    by (simp add: extractLinesWithByteLimit_def)
  also have "\<dots> = (l @ [NL]) @ take d r"
    by (simp add: d)
  finally show ?thesis
    by (simp only: prefixI)
qed

lemma extract_no_nl:
  assumes "NL \<notin> set s"
  shows "extractLinesWithByteLimit s n = \<lparr>Content = s, WasLimited = False, LinesRead = 1\<rparr>"
proof (cases "s = []")
  case True then show ?thesis by (simp add: extractLinesWithByteLimit_def)
next
  case False
  have "strings_Index s [NL] = None" using assms by (rule strings_Index_byte_none)
  then have "extractLoop s n 0 0 0 = (length s, False, 1)"
    by (subst extractLoop.simps) simp
  with False show ?thesis by (simp add: extractLinesWithByteLimit_def)
qed

lemma extract_truncate:
  assumes "p \<noteq> []" "last p = NL" "NL \<notin> set l" "nxt = l @ [NL] \<or> (nxt = l \<and> rest = [])"
    and "int (length p) \<le> n" "n < int (length (p @ nxt))"
  shows "extractLinesWithByteLimit (p @ nxt @ rest) n
           = \<lparr>Content = p, WasLimited = True, LinesRead = count_list p NL\<rparr>"
proof -
  have "extractLoop ([] @ p @ nxt @ rest) n 0 (length ([]::string)) (length ([]::string))
       = (length ([] @ p), True, 0 + count_list p NL)"
    using assms(3,4) by (rule extractLoop_truncate) (use assms in simp_all)
  with assms(1) show ?thesis by (simp add: extractLinesWithByteLimit_def)
qed

lemma extract_first_exceeds:
  assumes "NL \<notin> set l" "n < int (length (l @ [NL]))"
  shows "extractLinesWithByteLimit (l @ NL # r) n
           = \<lparr>Content = l @ [NL], WasLimited = True, LinesRead = 1\<rparr>"
proof -
  let ?s = "l @ NL # r"
  have idx: "strings_Index ?s [NL] = Some (length l)"
    using assms(1) by (rule strings_Index_byte_found)
  have step1: "extractLoop ?s n 0 0 0 = extractLoop ?s n 1 (length l + 1) (length l + 1)"
    using idx by (subst extractLoop.simps) (simp add: Let_def)
  have step2: "extractLoop ?s n 1 (length l + 1) (length l + 1) = (length l + 1, True, 1)"
  proof (cases "strings_Index r [NL]")
    case None
    with assms(2) show ?thesis by (subst extractLoop.simps) simp
  next
    case (Some k)
    with assms(2) show ?thesis by (subst extractLoop.simps) (simp add: Let_def)
  qed
  from step1 step2 have "extractLoop ?s n 0 0 0 = (length l + 1, True, 1)"
    by simp
  then show ?thesis
    by (simp add: extractLinesWithByteLimit_def)
qed

text \<open>
  Claim C5. For every content and byte limit: (1) the first line is always part of the returned
  content, even when it alone exceeds the limit: content \<open>l1 @ NL # r1\<close> whose first line is
  \<open>l1\<close> returns a content starting with \<open>l1 @ [NL]\<close>, and exactly that line, flagged as
  limited with one line read, when the line is longer than the limit; content of a single
  unterminated line is returned whole; (2) when the limit falls between two line boundaries,
  that is the content is \<open>p @ nxt @ rest\<close> where \<open>p\<close> is one or more whole lines, \<open>nxt\<close> is the
  line after them (terminated, or the unterminated last line) and
  \<open>length p \<le> limit < length (p @ nxt)\<close>, the returned content is exactly \<open>p\<close>, \<open>WasLimited\<close> is
  set and \<open>LinesRead\<close> is the number of lines of \<open>p\<close>.
\<close>

theorem extractLinesWithByteLimit_first_line_and_truncation:
  "(NL \<notin> set l1 \<longrightarrow>
      prefix (l1 @ [NL]) (Content (extractLinesWithByteLimit (l1 @ NL # r1) n)))
   \<and> (NL \<notin> set l1 \<and> n < int (length (l1 @ [NL])) \<longrightarrow>
      extractLinesWithByteLimit (l1 @ NL # r1) n
        = \<lparr>Content = l1 @ [NL], WasLimited = True, LinesRead = 1\<rparr>)
   \<and> (NL \<notin> set s \<longrightarrow> Content (extractLinesWithByteLimit s n) = s)
   \<and> (p \<noteq> [] \<and> last p = NL \<and> NL \<notin> set l
        \<and> (nxt = l @ [NL] \<or> (nxt = l \<and> rest = []))
        \<and> int (length p) \<le> n \<and> n < int (length (p @ nxt)) \<longrightarrow>
      extractLinesWithByteLimit (p @ nxt @ rest) n
        = \<lparr>Content = p, WasLimited = True, LinesRead = count_list p NL\<rparr>)"
proof (intro conjI impI)
  assume "NL \<notin> set l1"
  then show "prefix (l1 @ [NL]) (Content (extractLinesWithByteLimit (l1 @ NL # r1) n))"
    by (rule extract_first_nl)
next
  assume "NL \<notin> set l1 \<and> n < int (length (l1 @ [NL]))"
  then show "extractLinesWithByteLimit (l1 @ NL # r1) n
        = \<lparr>Content = l1 @ [NL], WasLimited = True, LinesRead = 1\<rparr>"
    using extract_first_exceeds by blast
next
  assume "NL \<notin> set s"
  then show "Content (extractLinesWithByteLimit s n) = s"
    by (simp add: extract_no_nl)
next
  assume "p \<noteq> [] \<and> last p = NL \<and> NL \<notin> set l
        \<and> (nxt = l @ [NL] \<or> (nxt = l \<and> rest = []))
        \<and> int (length p) \<le> n \<and> n < int (length (p @ nxt))"
  then show "extractLinesWithByteLimit (p @ nxt @ rest) n
        = \<lparr>Content = p, WasLimited = True, LinesRead = count_list p NL\<rparr>"
    using extract_truncate by blast
qed

theorem extractLinesWithByteLimit_first_line_and_truncation_witness:
  "extractLinesWithByteLimit (''a very long first line'' @ NL # ''second'' @ [NL]) 5
     = \<lparr>Content = ''a very long first line'' @ [NL], WasLimited = True, LinesRead = 1\<rparr>
   \<and> Content (extractLinesWithByteLimit ''hello'' 5) = ''hello''
   \<and> extractLinesWithByteLimit
         ((''line1'' @ [NL] @ ''line2'' @ [NL]) @ (''line3'' @ [NL]) @ []) 12
       = \<lparr>Content = ''line1'' @ [NL] @ ''line2'' @ [NL], WasLimited = True, LinesRead = 2\<rparr>"
  using extractLinesWithByteLimit_first_line_and_truncation
    [of "''a very long first line''" "''second'' @ [NL]" 5 "''hello''"
        "''line1'' @ [NL] @ ''line2'' @ [NL]" "''line3''" "''line3'' @ [NL]" "[]"]
    extractLinesWithByteLimit_first_line_and_truncation
    [of "''a very long first line''" "''second'' @ [NL]" 12 "''hello''"
        "''line1'' @ [NL] @ ''line2'' @ [NL]" "''line3''" "''line3'' @ [NL]" "[]"]
  by simp


section \<open>Markdown code fences\<close>

text \<open>
  \<open>markdownFenceRe.FindAllString(text, -1)\<close> for the pattern \<open>(?m)^`{3,}\<close>: in multi-line mode
  \<open>^\<close> matches at the start of the text and after every newline, and the greedy \<open>`{3,}\<close> takes
  the whole run of backticks there, so every line that starts with three or more backticks
  contributes its leading run, in order.
\<close>

definition markdownFenceRe_FindAllString :: "string \<Rightarrow> string list" where
  "markdownFenceRe_FindAllString text =
     concat (map (\<lambda>line. let run = takeWhile (\<lambda>c. c = BQ) line
                         in if 3 \<le> length run then [run] else [])
                 (strings_Split text NL))"

text \<open>The inner loop \<open>for len(match) >= len(fence) { fence += "`" }\<close>.\<close>

function fenceLoop :: "string \<Rightarrow> string \<Rightarrow> string" where
  "fenceLoop match fence =
     (if length match \<ge> length fence then fenceLoop match (fence @ [BQ]) else fence)"
  by pat_completeness auto
termination
  by (relation "measure (\<lambda>(m, f). Suc (length m) - length f)") auto

declare fenceLoop.simps [simp del]

definition markdownEscape :: "string \<Rightarrow> string" where
  "markdownEscape text =
     (let fence = foldl (\<lambda>fence match. fenceLoop match fence) [BQ, BQ, BQ]
                    (markdownFenceRe_FindAllString text);
          trailing = (if \<not> strings_HasSuffix text [NL] then [NL] else [])
      in fence @ [NL] @ text @ trailing @ fence)"

subsection \<open>The fence is longer than every run at a line start\<close>

lemma fenceLoop_replicate:
  "fenceLoop m (replicate k BQ) = replicate (max k (length m + 1)) BQ"
proof (induction "Suc (length m) - k" arbitrary: k)
  case 0
  then show ?case by (subst fenceLoop.simps) (simp add: max_def)
next
  case (Suc d)
  then have "d = Suc (length m) - Suc k" "length m \<ge> k" by simp_all
  from Suc(1) [OF this(1)] this(2) show ?case
    by (subst fenceLoop.simps) (simp add: replicate_append_same max_def)
qed

lemma fence_fold:
  "\<exists>K\<ge>k. foldl (\<lambda>fence match. fenceLoop match fence) (replicate k BQ) ms = replicate K BQ
     \<and> (\<forall>m\<in>set ms. length m < K)"
proof (induction ms arbitrary: k)
  case Nil
  show ?case by auto
next
  case (Cons m ms)
  from Cons [of "max k (length m + 1)"] obtain K where
    K: "K \<ge> max k (length m + 1)"
       "foldl (\<lambda>fence match. fenceLoop match fence) (replicate (max k (length m + 1)) BQ) ms = replicate K BQ"
       "\<forall>m\<in>set ms. length m < K" by blast
  show ?case
  proof (intro exI [of _ K] conjI)
    show "k \<le> K" using K(1) by simp
    show "foldl (\<lambda>fence match. fenceLoop match fence) (replicate k BQ) (m # ms) = replicate K BQ"
      using K(2) by (simp add: fenceLoop_replicate)
    show "\<forall>m\<in>set (m # ms). length m < K" using K(1,3) by simp
  qed
qed

lemma run_found:
  assumes "line \<in> set (strings_Split text NL)" "prefix (replicate m BQ) line" "3 \<le> m"
  shows "\<exists>run \<in> set (markdownFenceRe_FindAllString text). m \<le> length run"
proof -
  from assms(2) obtain rest where "line = replicate m BQ @ rest" by (auto simp: prefix_def)
  then have "takeWhile (\<lambda>c. c = BQ) line = replicate m BQ @ takeWhile (\<lambda>c. c = BQ) rest"
    by (induction m arbitrary: line) simp_all
  then have len: "m \<le> length (takeWhile (\<lambda>c. c = BQ) line)" by simp
  with assms(3) have "takeWhile (\<lambda>c. c = BQ) line \<in> set (markdownFenceRe_FindAllString text)"
    using assms(1) by (auto simp: markdownFenceRe_FindAllString_def Let_def intro!: bexI [of _ line])
  with len show ?thesis by blast
qed

text \<open>
  Claim C10. For every text, \<open>markdownEscape\<close> returns \<open>F\<close>, a newline, the text verbatim, a
  newline only if the text does not already end with one, and \<open>F\<close> again, where \<open>F\<close> is a run of
  \<open>k \<ge> 3\<close> backticks and \<open>k\<close> is strictly greater than every \<open>m \<ge> 3\<close> such that some line of
  the text starts with \<open>m\<close> backticks.
\<close>

theorem markdownEscape_fence:
  "\<exists>k\<ge>3. markdownEscape text
            = replicate k BQ @ [NL] @ text @ (if suffix [NL] text then [] else [NL]) @ replicate k BQ
        \<and> (\<forall>line\<in>set (strings_Split text NL). \<forall>m\<ge>3. prefix (replicate m BQ) line \<longrightarrow> m < k)"
proof -
  have "[BQ, BQ, BQ] = replicate 3 BQ" by (simp add: numeral_3_eq_3)
  with fence_fold [of 3 "markdownFenceRe_FindAllString text"] obtain K where
    K: "K \<ge> 3"
       "foldl (\<lambda>fence match. fenceLoop match fence) [BQ, BQ, BQ] (markdownFenceRe_FindAllString text) = replicate K BQ"
       "\<forall>m\<in>set (markdownFenceRe_FindAllString text). length m < K" by auto
  show ?thesis
  proof (intro exI [of _ K] conjI ballI allI impI)
    show "3 \<le> K" by (rule K(1))
    show "markdownEscape text
            = replicate K BQ @ [NL] @ text @ (if suffix [NL] text then [] else [NL]) @ replicate K BQ"
      using K(2) by (simp add: markdownEscape_def strings_HasSuffix_def Let_def)
  next
    fix line m
    assume "line \<in> set (strings_Split text NL)" "3 \<le> m" "prefix (replicate m BQ) line"
    then obtain run where "run \<in> set (markdownFenceRe_FindAllString text)" "m \<le> length run"
      using run_found by blast
    with K(3) show "m < K" by fastforce
  qed
qed

theorem markdownEscape_fence_witness:
  "\<exists>k>3. markdownEscape (''text'' @ [NL] @ ''```code'')
            = replicate k BQ @ [NL] @ (''text'' @ [NL] @ ''```code'') @ [NL] @ replicate k BQ"
proof -
  let ?t = "''text'' @ [NL] @ ''```code''"
  from markdownEscape_fence [of ?t] obtain k where
    k: "markdownEscape ?t = replicate k BQ @ [NL] @ ?t @ (if suffix [NL] ?t then [] else [NL]) @ replicate k BQ"
       "\<forall>line\<in>set (strings_Split ?t NL). \<forall>m\<ge>3. prefix (replicate m BQ) line \<longrightarrow> m < k"
    by blast
  have "''```code'' \<in> set (strings_Split ?t NL)" by simp
  moreover have "prefix (replicate 3 BQ) ''```code''" by (simp add: numeral_3_eq_3)
  ultimately have "3 < k" using k(2) by blast
  moreover have "\<not> suffix [NL] ?t" by (simp add: suffix_def)
  ultimately show ?thesis using k(1) by auto
qed

section \<open>Ending a prompt turn on a result event\<close>

text \<open>
  The fields of \<open>SDKResponse\<close> that \<open>handleResult\<close> reads. The raw JSON fields, the session
  identifier, the model and the error object of the struct are not read by it and are left
  out of the record.
\<close>

record SDKResponse =
  Type :: string
  Subtype :: string
  Errors :: "string list"
  IsError :: bool
  Result :: string

text \<open>The stop reasons of the protocol library.\<close>

datatype StopReason =
  StopReasonEndTurn
| StopReasonMaxTokens
| StopReasonMaxTurnRequests
| StopReasonRefusal
| StopReasonCancelled

record PromptResponse =
  StopReason :: StopReason

text \<open>
  The two errors \<open>handleResult\<close> returns: \<open>acp.NewAuthRequired(nil)\<close>, and
  \<open>acp.NewInternalError(map[string]any{"error": msg})\<close> with its message.
\<close>

datatype RequestError =
  AuthRequired
| InternalError string

definition handleResult :: "SDKResponse \<Rightarrow> RequestError + PromptResponse" where
  "handleResult resp =
     (if Subtype resp = ''success'' then
        (if strings_Contains (Result resp) ''Please run /login'' then Inl AuthRequired
         else if IsError resp then Inl (InternalError (Result resp))
         else Inr \<lparr>StopReason = StopReasonEndTurn\<rparr>)
      else if Subtype resp = ''error_max_turns'' \<or> Subtype resp = ''error_max_budget_usd''
              \<or> Subtype resp = ''error_max_structured_output_retries'' then
        (if IsError resp then
           (let errMsg = strings_Join (Errors resp) '', '';
                errMsg = (if errMsg = [] then Subtype resp else errMsg)
            in Inl (InternalError errMsg))
         else Inr \<lparr>StopReason = StopReasonMaxTurnRequests\<rparr>)
      else if Subtype resp = ''error_during_execution'' then
        (if IsError resp then
           (let errMsg = strings_Join (Errors resp) '', '';
                errMsg = (if errMsg = [] then Subtype resp else errMsg)
            in Inl (InternalError errMsg))
         else Inr \<lparr>StopReason = StopReasonEndTurn\<rparr>)
      else Inr \<lparr>StopReason = StopReasonEndTurn\<rparr>)"

text \<open>
  The mutable fields of \<open>Session\<close>; its process handle, settings manager and mutex are left
  out. \<open>IsCancelled\<close> reads the flag under the mutex.
\<close>

record Session =
  cancelled :: bool
  streamEventsReceived :: bool
  permissionMode :: string

definition IsCancelled :: "Session \<Rightarrow> bool" where
  "IsCancelled s = cancelled s"

text \<open>
  The arm \<open>case "result"\<close> of the \<open>switch\<close> in the read loop of \<open>Prompt\<close>, which runs when the
  response just read has the type \<open>result\<close> and returns from \<open>Prompt\<close>: a cancelled session
  ends the turn as cancelled before \<open>handleResult\<close> is called. The debug log line is left out.
\<close>

definition Prompt_result :: "Session \<Rightarrow> SDKResponse \<Rightarrow> RequestError + PromptResponse" where
  "Prompt_result session resp =
     (if IsCancelled session then Inr \<lparr>StopReason = StopReasonCancelled\<rparr>
      else handleResult resp)"

lemma handleResult_cases:
  "(Subtype resp = ''success'' \<longrightarrow>
      handleResult resp =
        (if strings_Contains (Result resp) ''Please run /login'' then Inl AuthRequired
         else if IsError resp then Inl (InternalError (Result resp))
         else Inr \<lparr>StopReason = StopReasonEndTurn\<rparr>))
   \<and> (Subtype resp \<in> {''error_max_turns'', ''error_max_budget_usd'',
                        ''error_max_structured_output_retries''} \<longrightarrow>
      handleResult resp =
        (if IsError resp
         then Inl (InternalError (if strings_Join (Errors resp) '', '' = [] then Subtype resp
                                  else strings_Join (Errors resp) '', ''))
         else Inr \<lparr>StopReason = StopReasonMaxTurnRequests\<rparr>))
   \<and> (Subtype resp = ''error_during_execution'' \<longrightarrow>
      handleResult resp =
        (if IsError resp
         then Inl (InternalError (if strings_Join (Errors resp) '', '' = [] then Subtype resp
                                  else strings_Join (Errors resp) '', ''))
         else Inr \<lparr>StopReason = StopReasonEndTurn\<rparr>))
   \<and> (Subtype resp \<notin> {''success'', ''error_max_turns'', ''error_max_budget_usd'',
                        ''error_max_structured_output_retries'', ''error_during_execution''} \<longrightarrow>
      handleResult resp = Inr \<lparr>StopReason = StopReasonEndTurn\<rparr>)"
  by (auto simp: handleResult_def Let_def)

text \<open>
  Claim C4 as stated fails. In a session that is not cancelled, a result of subtype
  \<open>error_during_execution\<close> is none of the listed subtypes, yet with the error flag set it ends
  the turn with an internal error, not with the end-turn stop reason; and a flagged
  \<open>error_max_turns\<close> result with no error messages carries the subtype name, not the (empty)
  joined messages. In a cancelled session a plain \<open>success\<close> result ends the turn as
  cancelled, not with the end-turn stop reason.
\<close>

theorem handleResult_other_subtype_counterexample:
  "handleResult \<lparr>Type = ''result'', Subtype = ''error_during_execution'', Errors = [''boom''],
                  IsError = True, Result = []\<rparr>
     = Inl (InternalError ''boom'')
   \<and> handleResult \<lparr>Type = ''result'', Subtype = ''error_during_execution'', Errors = [''boom''],
                    IsError = True, Result = []\<rparr>
     \<noteq> Inr \<lparr>StopReason = StopReasonEndTurn\<rparr>
   \<and> handleResult \<lparr>Type = ''result'', Subtype = ''error_max_turns'', Errors = [],
                    IsError = True, Result = []\<rparr>
     = Inl (InternalError ''error_max_turns'')
   \<and> Prompt_result \<lparr>cancelled = False, streamEventsReceived = False, permissionMode = ''default''\<rparr>
         \<lparr>Type = ''result'', Subtype = ''error_during_execution'', Errors = [''boom''],
          IsError = True, Result = []\<rparr>
     = Inl (InternalError ''boom'')
   \<and> Prompt_result \<lparr>cancelled = False, streamEventsReceived = False, permissionMode = ''default''\<rparr>
         \<lparr>Type = ''result'', Subtype = ''error_max_turns'', Errors = [],
          IsError = True, Result = []\<rparr>
     = Inl (InternalError ''error_max_turns'')
   \<and> Prompt_result \<lparr>cancelled = True, streamEventsReceived = False, permissionMode = ''default''\<rparr>
         \<lparr>Type = ''result'', Subtype = ''success'', Errors = [], IsError = False,
          Result = ''done''\<rparr>
     = Inr \<lparr>StopReason = StopReasonCancelled\<rparr>"
  by (simp add: handleResult_def Prompt_result_def IsCancelled_def)

text \<open>
  Claim C4, amended. When a result event is read during a prompt turn, the turn ends as
  follows. If the session has been cancelled, it ends with the cancelled stop reason, whatever
  the subtype. Otherwise: subtype \<open>success\<close> yields end-turn, unless the result text contains
  the login request (auth-required error) or, failing that, the error flag is set (internal
  error carrying the result text). Subtypes \<open>error_max_turns\<close>, \<open>error_max_budget_usd\<close> and
  \<open>error_max_structured_output_retries\<close> yield max-turn-requests unless the error flag is set;
  subtype \<open>error_during_execution\<close> yields end-turn unless the error flag is set; in both
  cases a set error flag gives an internal error carrying the error messages joined with
  \<open>", "\<close>, or the subtype name when that text is empty. Every other subtype yields end-turn.
\<close>

theorem Prompt_result_cases:
  "(IsCancelled session \<longrightarrow>
      Prompt_result session resp = Inr \<lparr>StopReason = StopReasonCancelled\<rparr>)
   \<and> (\<not> IsCancelled session \<and> Subtype resp = ''success'' \<longrightarrow>
      Prompt_result session resp =
        (if strings_Contains (Result resp) ''Please run /login'' then Inl AuthRequired
         else if IsError resp then Inl (InternalError (Result resp))
         else Inr \<lparr>StopReason = StopReasonEndTurn\<rparr>))
   \<and> (\<not> IsCancelled session
        \<and> Subtype resp \<in> {''error_max_turns'', ''error_max_budget_usd'',
                            ''error_max_structured_output_retries''} \<longrightarrow>
      Prompt_result session resp =
        (if IsError resp
         then Inl (InternalError (if strings_Join (Errors resp) '', '' = [] then Subtype resp
                                  else strings_Join (Errors resp) '', ''))
         else Inr \<lparr>StopReason = StopReasonMaxTurnRequests\<rparr>))
   \<and> (\<not> IsCancelled session \<and> Subtype resp = ''error_during_execution'' \<longrightarrow>
      Prompt_result session resp =
        (if IsError resp
         then Inl (InternalError (if strings_Join (Errors resp) '', '' = [] then Subtype resp
                                  else strings_Join (Errors resp) '', ''))
         else Inr \<lparr>StopReason = StopReasonEndTurn\<rparr>))
   \<and> (\<not> IsCancelled session
        \<and> Subtype resp \<notin> {''success'', ''error_max_turns'', ''error_max_budget_usd'',
                            ''error_max_structured_output_retries'',
                            ''error_during_execution''} \<longrightarrow>
      Prompt_result session resp = Inr \<lparr>StopReason = StopReasonEndTurn\<rparr>)"
proof (cases "IsCancelled session")
  case True
  then show ?thesis
    by (simp add: Prompt_result_def)
next
  case False
  then have "Prompt_result session resp = handleResult resp"
    by (simp add: Prompt_result_def)
  with False show ?thesis
    using handleResult_cases [of resp] by simp
qed

theorem Prompt_result_cases_witness:
  "Prompt_result \<lparr>cancelled = True, streamEventsReceived = False, permissionMode = ''default''\<rparr>
       \<lparr>Type = ''result'', Subtype = ''success'', Errors = [], IsError = False,
        Result = ''done''\<rparr> = Inr \<lparr>StopReason = StopReasonCancelled\<rparr>
   \<and> Prompt_result \<lparr>cancelled = False, streamEventsReceived = False, permissionMode = ''default''\<rparr>
       \<lparr>Type = ''result'', Subtype = ''success'', Errors = [], IsError = False,
        Result = ''Please run /login first''\<rparr> = Inl AuthRequired
   \<and> Prompt_result \<lparr>cancelled = False, streamEventsReceived = False, permissionMode = ''default''\<rparr>
       \<lparr>Type = ''result'', Subtype = ''error_max_budget_usd'',
        Errors = [''over budget'', ''stopped''], IsError = True, Result = []\<rparr>
       = Inl (InternalError ''over budget, stopped'')
   \<and> Prompt_result \<lparr>cancelled = False, streamEventsReceived = False, permissionMode = ''default''\<rparr>
       \<lparr>Type = ''result'', Subtype = ''error_during_execution'', Errors = [],
        IsError = False, Result = []\<rparr> = Inr \<lparr>StopReason = StopReasonEndTurn\<rparr>
   \<and> Prompt_result \<lparr>cancelled = False, streamEventsReceived = False, permissionMode = ''default''\<rparr>
       \<lparr>Type = ''result'', Subtype = ''interrupted'', Errors = [''x''],
        IsError = True, Result = []\<rparr> = Inr \<lparr>StopReason = StopReasonEndTurn\<rparr>"
proof -
  let ?on = "\<lparr>cancelled = True, streamEventsReceived = False, permissionMode = ''default''\<rparr>"
  let ?off = "\<lparr>cancelled = False, streamEventsReceived = False, permissionMode = ''default''\<rparr>"
  have s: "IsCancelled ?on" "\<not> IsCancelled ?off"
    by (simp_all add: IsCancelled_def)
  have c: "strings_Contains ''Please run /login first'' ''Please run /login''"
    by (simp add: strings_Contains_def)
  show ?thesis
    using s c
      Prompt_result_cases [of ?on "\<lparr>Type = ''result'', Subtype = ''success'', Errors = [],
         IsError = False, Result = ''done''\<rparr>"]
      Prompt_result_cases [of ?off "\<lparr>Type = ''result'', Subtype = ''success'', Errors = [],
         IsError = False, Result = ''Please run /login first''\<rparr>"]
      Prompt_result_cases [of ?off "\<lparr>Type = ''result'', Subtype = ''error_max_budget_usd'',
         Errors = [''over budget'', ''stopped''], IsError = True, Result = []\<rparr>"]
      Prompt_result_cases [of ?off "\<lparr>Type = ''result'', Subtype = ''error_during_execution'',
         Errors = [], IsError = False, Result = []\<rparr>"]
      Prompt_result_cases [of ?off "\<lparr>Type = ''result'', Subtype = ''interrupted'',
         Errors = [''x''], IsError = True, Result = []\<rparr>"]
    by simp
qed

section \<open>Tool input values\<close>

text \<open>
  A tool input is a Go \<open>map[string]any\<close> decoded from JSON or built by a caller. The values
  are modelled by the dynamic types the code inspects: \<open>nil\<close>, \<open>bool\<close>, \<open>string\<close>, \<open>float64\<close>,
  \<open>int\<close>, \<open>json.Number\<close>, \<open>[]any\<close> and \<open>map[string]any\<close>. The type \<open>'f\<close> stands for
  \<open>float64\<close>, whose values the model never computes with.
\<close>

datatype 'f any =
  ANil
| ABool bool
| AString string
| AFloat64 'f
| AInt int
| AJsonNumber string
| ASlice "'f any list"
| AMap "string \<Rightarrow> 'f any option"

type_synonym 'f input = "string \<Rightarrow> 'f any option"

section \<open>The permission rule engine\<close>

definition ACPToolNamePrefix :: string where
  "ACPToolNamePrefix = ''mcp__acp__''"

record PermissionSettings =
  Allow :: "string list"
  Deny :: "string list"
  Ask :: "string list"
  AdditionalDirectories :: "string list"
  DefaultMode :: string

text \<open>\<open>Permissions\<close> is a pointer and \<open>Env\<close> a map that may be \<open>nil\<close>: both are options.\<close>

record ClaudeCodeSettings =
  Permissions :: "PermissionSettings option"
  Env :: "(string \<Rightarrow> string option) option"
  Model :: string

datatype PermissionDecision = PermissionAllow | PermissionDeny | PermissionAsk

record PermissionCheckResult =
  Decision :: PermissionDecision
  Rule :: string
  Source :: string

record parsedRule =
  toolName :: string
  argument :: string
  isWildcard :: bool

definition shellOperators :: "string list" where
  "shellOperators = [''&&'', ''||'', '';'', ''|'', ''$('', [BQ], [NL]]"

definition fileEditingTools :: "string list" where
  "fileEditingTools = [ACPToolNamePrefix @ ''Edit'', ACPToolNamePrefix @ ''Write'']"

definition fileReadingTools :: "string list" where
  "fileReadingTools = [ACPToolNamePrefix @ ''Read'']"

definition getStringArg :: "'f input \<Rightarrow> string \<Rightarrow> string" where
  "getStringArg input key = (case input key of Some (AString s) \<Rightarrow> s | _ \<Rightarrow> [])"

text \<open>The map \<open>toolArgAccessors\<close>: \<open>None\<close> for a tool name that is not a key.\<close>

definition toolArgAccessors :: "string \<Rightarrow> ('f input \<Rightarrow> string) option" where
  "toolArgAccessors name =
     (if name = ACPToolNamePrefix @ ''Read'' then Some (\<lambda>input. getStringArg input ''file_path'')
      else if name = ACPToolNamePrefix @ ''Edit'' then Some (\<lambda>input. getStringArg input ''file_path'')
      else if name = ACPToolNamePrefix @ ''Write'' then Some (\<lambda>input. getStringArg input ''file_path'')
      else if name = ACPToolNamePrefix @ ''Bash'' then Some (\<lambda>input. getStringArg input ''command'')
      else None)"

text \<open>
  \<open>ruleRegexp.FindStringSubmatch\<close> for the pattern \<open>^(\w+)(?:\((.+)\))?$\<close>, returning the two
  groups. \<open>\w\<close> is an ASCII letter, digit or underscore; the name group is followed by the end of
  the text or by an opening parenthesis, so it is the whole leading run of word bytes. The
  optional group is an opening parenthesis, one or more bytes other than newline, and a closing
  parenthesis that ends the text; an absent group reads as the empty string.
\<close>

definition isWordByte :: "char \<Rightarrow> bool" where
  "isWordByte c =
     (c \<in> set ''abcdefghijklmnopqrstuvwxyzABCDEFGHIJKLMNOPQRSTUVWXYZ0123456789_'')"

definition ruleRegexp_FindStringSubmatch :: "string \<Rightarrow> (string \<times> string) option" where
  "ruleRegexp_FindStringSubmatch rule =
     (let name = takeWhile isWordByte rule;
          rest = dropWhile isWordByte rule
      in if name = [] then None
         else if rest = [] then Some (name, [])
         else if 3 \<le> length rest \<and> hd rest = CHR ''('' \<and> last rest = CHR '')''
                 \<and> NL \<notin> set (butlast (tl rest))
         then Some (name, butlast (tl rest))
         else None)"

definition parseRule :: "string \<Rightarrow> parsedRule" where
  "parseRule rule =
     (case ruleRegexp_FindStringSubmatch rule of
        None \<Rightarrow> \<lparr>toolName = rule, argument = [], isWildcard = False\<rparr>
      | Some (name, arg) \<Rightarrow>
          if arg \<noteq> [] \<and> strings_HasSuffix arg '':*''
          then \<lparr>toolName = name, argument = take (length arg - 2) arg, isWildcard = True\<rparr>
          else \<lparr>toolName = name, argument = arg, isWildcard = False\<rparr>)"

fun containsShellOperatorLoop :: "string \<Rightarrow> string list \<Rightarrow> bool" where
  "containsShellOperatorLoop str [] = False"
| "containsShellOperatorLoop str (op # ops) =
     (if strings_Contains str op then True else containsShellOperatorLoop str ops)"

definition containsShellOperator :: "string \<Rightarrow> bool" where
  "containsShellOperator str = containsShellOperatorLoop str shellOperators"

text \<open>
  What \<open>normalizePath\<close> and \<open>matchesGlob\<close> take from outside the repository: the home directory
  (\<open>None\<close> when \<open>os.UserHomeDir\<close> fails), \<open>runtime.GOOS\<close>, the functions \<open>filepath.Join\<close>,
  \<open>filepath.IsAbs\<close> and \<open>filepath.Clean\<close>, and the glob library: \<open>glob.Compile(pattern, '/')\<close>
  gives the compiled pattern's \<open>Match\<close> function, or \<open>None\<close> when it fails.
\<close>

record os_env =
  os_UserHomeDir :: "string option"
  runtime_GOOS :: string
  filepath_Join :: "string \<Rightarrow> string \<Rightarrow> string"
  filepath_IsAbs :: "string \<Rightarrow> bool"
  filepath_Clean :: "string \<Rightarrow> string"
  glob_Compile :: "string \<Rightarrow> (string \<Rightarrow> bool) option"

definition normalizePath :: "os_env \<Rightarrow> string \<Rightarrow> string \<Rightarrow> string" where
  "normalizePath env filePath cwd =
     (let filePath' =
            (if strings_HasPrefix filePath ''~/'' then
               (case os_UserHomeDir env of
                  Some home \<Rightarrow> filepath_Join env home (drop 2 filePath)
                | None \<Rightarrow> filePath)
             else if strings_HasPrefix filePath ''./'' then filepath_Join env cwd (drop 2 filePath)
             else if \<not> filepath_IsAbs env filePath then filepath_Join env cwd filePath
             else filePath);
          cleaned = filepath_Clean env filePath'
      in if runtime_GOOS env = ''windows''
         then map (\<lambda>c. if c = CHR 0x5C then CHR ''/'' else c) cleaned
         else cleaned)"

definition matchesGlob :: "os_env \<Rightarrow> string \<Rightarrow> string \<Rightarrow> string \<Rightarrow> bool" where
  "matchesGlob env pattern filePath cwd =
     (let normalizedPattern = normalizePath env pattern cwd;
          normalizedPath = normalizePath env filePath cwd
      in case glob_Compile env normalizedPattern of
           None \<Rightarrow> False
         | Some g \<Rightarrow> g normalizedPath)"

definition matchesRule :: "os_env \<Rightarrow> parsedRule \<Rightarrow> string \<Rightarrow> 'f input \<Rightarrow> string \<Rightarrow> bool" where
  "matchesRule env rule name toolInput cwd =
     (let ruleAppliesToTool =
            (if toolName rule = ''Bash'' then name = ACPToolNamePrefix @ ''Bash''
             else if toolName rule = ''Edit'' then name \<in> set fileEditingTools
             else if toolName rule = ''Read'' then name \<in> set fileReadingTools
             else False)
      in if \<not> ruleAppliesToTool then False
         else if argument rule = [] then True
         else case toolArgAccessors name of
                None \<Rightarrow> True
              | Some argAccessor \<Rightarrow>
                  (let actualArg = argAccessor toolInput
                   in if actualArg = [] then False
                      else if name = ACPToolNamePrefix @ ''Bash'' then
                        (if isWildcard rule then
                           (if \<not> strings_HasPrefix actualArg (argument rule) then False
                            else let remainder = drop (length (argument rule)) actualArg
                                 in if containsShellOperator remainder then False else True)
                         else actualArg = argument rule)
                      else matchesGlob env (argument rule) actualArg cwd))"

text \<open>
  Each of the three loops of \<open>CheckPermission\<close> runs over one rule list and returns at the first
  rule that matches; \<open>checkRules\<close> is that loop, giving the rule it returned at.
\<close>

fun checkRules :: "os_env \<Rightarrow> string \<Rightarrow> string \<Rightarrow> 'f input \<Rightarrow> string list \<Rightarrow> string option" where
  "checkRules env cwd name toolInput [] = None"
| "checkRules env cwd name toolInput (rule # rules) =
     (let parsed = parseRule rule
      in if matchesRule env parsed name toolInput cwd then Some rule
         else checkRules env cwd name toolInput rules)"

text \<open>
  The settings manager: the working directory, the four sources and the merged settings. Its
  lock, logger and initialised flag do not influence a permission check.
\<close>

record SettingsManager =
  cwd :: string
  userSettings :: ClaudeCodeSettings
  projectSettings :: ClaudeCodeSettings
  localSettings :: ClaudeCodeSettings
  enterpriseSettings :: ClaudeCodeSettings
  mergedSettings :: ClaudeCodeSettings

text \<open>One round of the loop of \<open>mergeSettings\<close> over the sources.\<close>

definition mergeStep :: "ClaudeCodeSettings \<Rightarrow> ClaudeCodeSettings \<Rightarrow> ClaudeCodeSettings" where
  "mergeStep merged settings =
     (let merged1 =
            (case Permissions settings of
               None \<Rightarrow> merged
             | Some p \<Rightarrow>
                 merged\<lparr>Permissions :=
                   map_option (\<lambda>mp.
                     \<lparr>Allow = Allow mp @ Allow p,
                      Deny = Deny mp @ Deny p,
                      Ask = Ask mp @ Ask p,
                      AdditionalDirectories =
                        (if length (AdditionalDirectories p) > 0
                         then AdditionalDirectories mp @ AdditionalDirectories p
                         else AdditionalDirectories mp),
                      DefaultMode =
                        (if DefaultMode p \<noteq> [] then DefaultMode p else DefaultMode mp)\<rparr>)
                     (Permissions merged)\<rparr>);
          merged2 =
            (case Env settings of
               None \<Rightarrow> merged1
             | Some e \<Rightarrow>
                 merged1\<lparr>Env := Some ((case Env merged1 of None \<Rightarrow> Map.empty | Some m \<Rightarrow> m) ++ e)\<rparr>)
      in if Model settings \<noteq> [] then merged2\<lparr>Model := Model settings\<rparr> else merged2)"

definition mergeSettings :: "SettingsManager \<Rightarrow> SettingsManager" where
  "mergeSettings s =
     (let allSettings = [userSettings s, projectSettings s, localSettings s, enterpriseSettings s];
          merged = \<lparr>Permissions = Some \<lparr>Allow = [], Deny = [], Ask = [],
                                         AdditionalDirectories = [], DefaultMode = []\<rparr>,
                    Env = None, Model = []\<rparr>
      in s\<lparr>mergedSettings := foldl mergeStep merged allSettings\<rparr>)"

definition CheckPermission :: "os_env \<Rightarrow> SettingsManager \<Rightarrow> string \<Rightarrow> 'f input \<Rightarrow> PermissionCheckResult" where
  "CheckPermission env s name toolInput =
     (if \<not> strings_HasPrefix name ACPToolNamePrefix
      then \<lparr>Decision = PermissionAsk, Rule = [], Source = []\<rparr>
      else case Permissions (mergedSettings s) of
             None \<Rightarrow> \<lparr>Decision = PermissionAsk, Rule = [], Source = []\<rparr>
           | Some permissions \<Rightarrow>
               (case checkRules env (cwd s) name toolInput (Deny permissions) of
                  Some rule \<Rightarrow> \<lparr>Decision = PermissionDeny, Rule = rule, Source = ''deny''\<rparr>
                | None \<Rightarrow>
               (case checkRules env (cwd s) name toolInput (Allow permissions) of
                  Some rule \<Rightarrow> \<lparr>Decision = PermissionAllow, Rule = rule, Source = ''allow''\<rparr>
                | None \<Rightarrow>
               (case checkRules env (cwd s) name toolInput (Ask permissions) of
                  Some rule \<Rightarrow> \<lparr>Decision = PermissionAsk, Rule = rule, Source = ''ask''\<rparr>
                | None \<Rightarrow> \<lparr>Decision = PermissionAsk, Rule = [], Source = []\<rparr>))))"

text \<open>
  An environment for the examples: a Unix system on which the paths that occur are already
  clean, so that \<open>filepath.Join\<close> is concatenation with a slash and \<open>filepath.Clean\<close> changes
  nothing, and the patterns have no glob metacharacter, so that a compiled pattern matches
  exactly itself.
\<close>

definition literal_env :: os_env where
  "literal_env =
     \<lparr>os_UserHomeDir = Some ''/home/user'',
      runtime_GOOS = ''linux'',
      filepath_Join = (\<lambda>dir file. dir @ ''/'' @ file),
      filepath_IsAbs = (\<lambda>p. strings_HasPrefix p ''/''),
      filepath_Clean = (\<lambda>p. p),
      glob_Compile = (\<lambda>pattern. Some (\<lambda>path. path = pattern))\<rparr>"

text \<open>
  The sources of the examples: the user settings allow every read, the project settings deny
  reading \<open>./.env\<close> and ask for the files of the working directory \<open>/test\<close>.
\<close>

definition example_sources :: SettingsManager where
  "example_sources =
     \<lparr>cwd = ''/test'',
      userSettings =
        \<lparr>Permissions = Some \<lparr>Allow = [''Read''], Deny = [], Ask = [],
                               AdditionalDirectories = [], DefaultMode = []\<rparr>,
         Env = None, Model = []\<rparr>,
      projectSettings =
        \<lparr>Permissions = Some \<lparr>Allow = [], Deny = [''Read(./.env)''], Ask = [''Read(./*)''],
                               AdditionalDirectories = [], DefaultMode = []\<rparr>,
         Env = None, Model = []\<rparr>,
      localSettings = \<lparr>Permissions = None, Env = None, Model = []\<rparr>,
      enterpriseSettings = \<lparr>Permissions = None, Env = None, Model = []\<rparr>,
      mergedSettings = \<lparr>Permissions = None, Env = None, Model = []\<rparr>\<rparr>"

subsection \<open>Substring search\<close>

lemma strings_Contains_sublist: "strings_Contains s sub \<longleftrightarrow> sublist sub s"
  by (induction s) (auto simp: strings_Contains_def sublist_Cons_right)

lemma containsShellOperatorLoop_iff:
  "containsShellOperatorLoop str ops \<longleftrightarrow> (\<exists>op\<in>set ops. sublist op str)"
  by (induction ops) (auto simp: strings_Contains_sublist)

lemma containsShellOperator_iff:
  "containsShellOperator str \<longleftrightarrow>
     (\<exists>op\<in>{''&&'', ''||'', '';'', ''|'', ''$('', [BQ], [NL]}. sublist op str)"
  by (simp add: containsShellOperator_def containsShellOperatorLoop_iff shellOperators_def)

subsection \<open>The rule loops\<close>

lemma checkRules_None_iff:
  "checkRules env dir name toolInput rules = None \<longleftrightarrow>
     (\<forall>r\<in>set rules. \<not> matchesRule env (parseRule r) name toolInput dir)"
  by (induction rules) (auto simp: Let_def)

lemma checkRules_Some_iff:
  "checkRules env dir name toolInput rules = Some r \<longleftrightarrow>
     (\<exists>pre post. rules = pre @ r # post
        \<and> (\<forall>x\<in>set pre. \<not> matchesRule env (parseRule x) name toolInput dir)
        \<and> matchesRule env (parseRule r) name toolInput dir)"
proof (induction rules)
  case Nil
  show ?case by simp
next
  case (Cons a rules)
  show ?case
  proof (cases "matchesRule env (parseRule a) name toolInput dir")
    case True
    have "(\<exists>pre post. a # rules = pre @ r # post
        \<and> (\<forall>x\<in>set pre. \<not> matchesRule env (parseRule x) name toolInput dir)
        \<and> matchesRule env (parseRule r) name toolInput dir) \<longleftrightarrow> a = r"
    proof
      assume "\<exists>pre post. a # rules = pre @ r # post
        \<and> (\<forall>x\<in>set pre. \<not> matchesRule env (parseRule x) name toolInput dir)
        \<and> matchesRule env (parseRule r) name toolInput dir"
      then obtain pre post where p: "a # rules = pre @ r # post"
        "\<forall>x\<in>set pre. \<not> matchesRule env (parseRule x) name toolInput dir" by blast
      with True show "a = r" by (cases pre) auto
    next
      assume "a = r"
      with True show "\<exists>pre post. a # rules = pre @ r # post
        \<and> (\<forall>x\<in>set pre. \<not> matchesRule env (parseRule x) name toolInput dir)
        \<and> matchesRule env (parseRule r) name toolInput dir"
        by (intro exI [of _ "[]"] exI [of _ rules]) simp
    qed
    with True show ?thesis by (simp add: Let_def)
  next
    case False
    have "(\<exists>pre post. a # rules = pre @ r # post
        \<and> (\<forall>x\<in>set pre. \<not> matchesRule env (parseRule x) name toolInput dir)
        \<and> matchesRule env (parseRule r) name toolInput dir) \<longleftrightarrow>
       (\<exists>pre post. rules = pre @ r # post
        \<and> (\<forall>x\<in>set pre. \<not> matchesRule env (parseRule x) name toolInput dir)
        \<and> matchesRule env (parseRule r) name toolInput dir)" (is "?L \<longleftrightarrow> ?R")
    proof
      assume ?L
      then obtain pre post where p: "a # rules = pre @ r # post"
        "\<forall>x\<in>set pre. \<not> matchesRule env (parseRule x) name toolInput dir"
        "matchesRule env (parseRule r) name toolInput dir" by blast
      with False obtain pre' where "pre = a # pre'" by (cases pre) auto
      with p show ?R by auto
    next
      assume ?R
      then obtain pre post where p: "rules = pre @ r # post"
        "\<forall>x\<in>set pre. \<not> matchesRule env (parseRule x) name toolInput dir"
        "matchesRule env (parseRule r) name toolInput dir" by blast
      with False show ?L by (intro exI [of _ "a # pre"] exI [of _ post]) simp
    qed
    with False Cons show ?thesis by (simp add: Let_def)
  qed
qed


subsection \<open>Merging the sources\<close>

lemma Permissions_mergeStep:
  "Permissions (mergeStep merged settings) =
     (case Permissions settings of
        None \<Rightarrow> Permissions merged
      | Some p \<Rightarrow>
          map_option (\<lambda>mp.
            \<lparr>Allow = Allow mp @ Allow p, Deny = Deny mp @ Deny p, Ask = Ask mp @ Ask p,
             AdditionalDirectories =
               (if length (AdditionalDirectories p) > 0
                then AdditionalDirectories mp @ AdditionalDirectories p
                else AdditionalDirectories mp),
             DefaultMode = (if DefaultMode p \<noteq> [] then DefaultMode p else DefaultMode mp)\<rparr>)
            (Permissions merged))"
  by (simp add: mergeStep_def Let_def split: option.splits)

lemma foldl_mergeStep_rules:
  "Permissions merged = Some mp \<Longrightarrow>
   \<exists>mp'. Permissions (foldl mergeStep merged srcs) = Some mp'
     \<and> Deny mp' = Deny mp @ concat (map Deny (List.map_filter Permissions srcs))
     \<and> Allow mp' = Allow mp @ concat (map Allow (List.map_filter Permissions srcs))
     \<and> Ask mp' = Ask mp @ concat (map Ask (List.map_filter Permissions srcs))"
proof (induction srcs arbitrary: merged mp)
  case Nil
  then show ?case by (simp add: List.map_filter_simps)
next
  case (Cons src srcs)
  show ?case
  proof (cases "Permissions src")
    case None
    with Cons.prems have "Permissions (mergeStep merged src) = Some mp"
      by (simp add: Permissions_mergeStep)
    from Cons.IH [OF this] None show ?thesis
      by (simp add: List.map_filter_simps)
  next
    case (Some p)
    let ?mp1 = "\<lparr>Allow = Allow mp @ Allow p, Deny = Deny mp @ Deny p, Ask = Ask mp @ Ask p,
             AdditionalDirectories =
               (if length (AdditionalDirectories p) > 0
                then AdditionalDirectories mp @ AdditionalDirectories p
                else AdditionalDirectories mp),
             DefaultMode = (if DefaultMode p \<noteq> [] then DefaultMode p else DefaultMode mp)\<rparr>"
    from Cons.prems Some have "Permissions (mergeStep merged src) = Some ?mp1"
      by (simp add: Permissions_mergeStep)
    from Cons.IH [OF this] Some show ?thesis
      by (simp add: List.map_filter_simps)
  qed
qed

lemma mergeSettings_rules:
  "\<exists>mp. Permissions (mergedSettings (mergeSettings s)) = Some mp
     \<and> Deny mp = concat (map Deny (List.map_filter Permissions
           [userSettings s, projectSettings s, localSettings s, enterpriseSettings s]))
     \<and> Allow mp = concat (map Allow (List.map_filter Permissions
           [userSettings s, projectSettings s, localSettings s, enterpriseSettings s]))
     \<and> Ask mp = concat (map Ask (List.map_filter Permissions
           [userSettings s, projectSettings s, localSettings s, enterpriseSettings s]))"
proof -
  let ?m0 = "\<lparr>Permissions = Some \<lparr>Allow = [], Deny = [], Ask = [],
                 AdditionalDirectories = [], DefaultMode = []\<rparr>, Env = None, Model = []\<rparr>"
  have "Permissions ?m0 = Some \<lparr>Allow = [], Deny = [], Ask = [],
                 AdditionalDirectories = [], DefaultMode = []\<rparr>" by simp
  from foldl_mergeStep_rules [OF this,
      of "[userSettings s, projectSettings s, localSettings s, enterpriseSettings s]"]
  show ?thesis by (simp add: mergeSettings_def Let_def)
qed

lemma cwd_mergeSettings: "cwd (mergeSettings s) = cwd s"
  by (simp add: mergeSettings_def Let_def)

subsection \<open>Precedence of the rule lists\<close>

lemma CheckPermission_deny:
  assumes "strings_HasPrefix name ACPToolNamePrefix"
    and "Permissions (mergedSettings s) = Some perms"
    and "\<exists>r\<in>set (Deny perms). matchesRule env (parseRule r) name toolInput (cwd s)"
  shows "\<exists>pre r post. Deny perms = pre @ r # post
           \<and> (\<forall>x\<in>set pre. \<not> matchesRule env (parseRule x) name toolInput (cwd s))
           \<and> matchesRule env (parseRule r) name toolInput (cwd s)
           \<and> CheckPermission env s name toolInput
                = \<lparr>Decision = PermissionDeny, Rule = r, Source = ''deny''\<rparr>"
proof -
  from assms(3) obtain r where r: "checkRules env (cwd s) name toolInput (Deny perms) = Some r"
    using checkRules_None_iff [of env "cwd s" name toolInput "Deny perms"] by fastforce
  then have "CheckPermission env s name toolInput
                = \<lparr>Decision = PermissionDeny, Rule = r, Source = ''deny''\<rparr>"
    using assms(1,2) by (simp add: CheckPermission_def)
  with r show ?thesis
    unfolding checkRules_Some_iff by blast
qed

lemma CheckPermission_allow:
  assumes "strings_HasPrefix name ACPToolNamePrefix"
    and "Permissions (mergedSettings s) = Some perms"
    and "\<forall>r\<in>set (Deny perms). \<not> matchesRule env (parseRule r) name toolInput (cwd s)"
    and "\<exists>r\<in>set (Allow perms). matchesRule env (parseRule r) name toolInput (cwd s)"
  shows "\<exists>pre r post. Allow perms = pre @ r # post
           \<and> (\<forall>x\<in>set pre. \<not> matchesRule env (parseRule x) name toolInput (cwd s))
           \<and> matchesRule env (parseRule r) name toolInput (cwd s)
           \<and> CheckPermission env s name toolInput
                = \<lparr>Decision = PermissionAllow, Rule = r, Source = ''allow''\<rparr>"
proof -
  from assms(3) have d: "checkRules env (cwd s) name toolInput (Deny perms) = None"
    by (simp add: checkRules_None_iff)
  from assms(4) obtain r where r: "checkRules env (cwd s) name toolInput (Allow perms) = Some r"
    using checkRules_None_iff [of env "cwd s" name toolInput "Allow perms"] by fastforce
  then have "CheckPermission env s name toolInput
                = \<lparr>Decision = PermissionAllow, Rule = r, Source = ''allow''\<rparr>"
    using assms(1,2) d by (simp add: CheckPermission_def)
  with r show ?thesis
    unfolding checkRules_Some_iff by blast
qed

lemma CheckPermission_ask:
  assumes "strings_HasPrefix name ACPToolNamePrefix"
    and "Permissions (mergedSettings s) = Some perms"
    and "\<forall>r\<in>set (Deny perms). \<not> matchesRule env (parseRule r) name toolInput (cwd s)"
    and "\<forall>r\<in>set (Allow perms). \<not> matchesRule env (parseRule r) name toolInput (cwd s)"
    and "\<exists>r\<in>set (Ask perms). matchesRule env (parseRule r) name toolInput (cwd s)"
  shows "\<exists>pre r post. Ask perms = pre @ r # post
           \<and> (\<forall>x\<in>set pre. \<not> matchesRule env (parseRule x) name toolInput (cwd s))
           \<and> matchesRule env (parseRule r) name toolInput (cwd s)
           \<and> CheckPermission env s name toolInput
                = \<lparr>Decision = PermissionAsk, Rule = r, Source = ''ask''\<rparr>"
proof -
  from assms(3) have d: "checkRules env (cwd s) name toolInput (Deny perms) = None"
    by (simp add: checkRules_None_iff)
  from assms(4) have a: "checkRules env (cwd s) name toolInput (Allow perms) = None"
    by (simp add: checkRules_None_iff)
  from assms(5) obtain r where r: "checkRules env (cwd s) name toolInput (Ask perms) = Some r"
    using checkRules_None_iff [of env "cwd s" name toolInput "Ask perms"] by fastforce
  then have "CheckPermission env s name toolInput
                = \<lparr>Decision = PermissionAsk, Rule = r, Source = ''ask''\<rparr>"
    using assms(1,2) d a by (simp add: CheckPermission_def)
  with r show ?thesis
    unfolding checkRules_Some_iff by blast
qed

lemma CheckPermission_default:
  assumes "\<forall>r\<in>set (Deny perms). \<not> matchesRule env (parseRule r) name toolInput (cwd s)"
    and "\<forall>r\<in>set (Allow perms). \<not> matchesRule env (parseRule r) name toolInput (cwd s)"
    and "\<forall>r\<in>set (Ask perms). \<not> matchesRule env (parseRule r) name toolInput (cwd s)"
    and "Permissions (mergedSettings s) = Some perms"
  shows "CheckPermission env s name toolInput
           = \<lparr>Decision = PermissionAsk, Rule = [], Source = []\<rparr>"
proof -
  from assms(1) have "checkRules env (cwd s) name toolInput (Deny perms) = None"
    by (simp add: checkRules_None_iff)
  moreover from assms(2) have "checkRules env (cwd s) name toolInput (Allow perms) = None"
    by (simp add: checkRules_None_iff)
  moreover from assms(3) have "checkRules env (cwd s) name toolInput (Ask perms) = None"
    by (simp add: checkRules_None_iff)
  ultimately show ?thesis using assms(4) by (simp add: CheckPermission_def)
qed


subsection \<open>The rule strings of the examples\<close>

lemma parseRule_Read_env:
  "parseRule ''Read(./.env)'' = \<lparr>toolName = ''Read'', argument = ''./.env'', isWildcard = False\<rparr>"
  by (simp add: parseRule_def ruleRegexp_FindStringSubmatch_def isWordByte_def
      strings_HasSuffix_def suffix_def)

lemma parseRule_Read:
  "parseRule ''Read'' = \<lparr>toolName = ''Read'', argument = [], isWildcard = False\<rparr>"
  by (simp add: parseRule_def ruleRegexp_FindStringSubmatch_def isWordByte_def)

lemma parseRule_Bash_npm_run:
  "parseRule ''Bash(npm run:*)'' = \<lparr>toolName = ''Bash'', argument = ''npm run'', isWildcard = True\<rparr>"
  by (simp add: parseRule_def ruleRegexp_FindStringSubmatch_def isWordByte_def
      strings_HasSuffix_def suffix_def)

lemma parseRule_Bash_empty_prefix:
  "parseRule ''Bash(:*)'' = \<lparr>toolName = ''Bash'', argument = [], isWildcard = True\<rparr>"
  by (simp add: parseRule_def ruleRegexp_FindStringSubmatch_def isWordByte_def
      strings_HasSuffix_def suffix_def)

lemma matchesRule_Read_env:
  "matchesRule env \<lparr>toolName = ''Read'', argument = ''./.env'', isWildcard = False\<rparr>
       (ACPToolNamePrefix @ ''Read'') toolInput dir
     \<longleftrightarrow> getStringArg toolInput ''file_path'' \<noteq> []
         \<and> matchesGlob env ''./.env'' (getStringArg toolInput ''file_path'') dir"
  by (auto simp: matchesRule_def fileReadingTools_def toolArgAccessors_def ACPToolNamePrefix_def
      Let_def)

lemma matchesRule_Read_any:
  "matchesRule env \<lparr>toolName = ''Read'', argument = [], isWildcard = False\<rparr>
       (ACPToolNamePrefix @ ''Read'') toolInput dir"
  by (simp add: matchesRule_def fileReadingTools_def)

lemma CheckPermission_read_env:
  assumes "Permissions (mergedSettings s) = Some perms"
    and "Deny perms = [''Read(./.env)'']" "Allow perms = [''Read'']"
  shows "CheckPermission env s (ACPToolNamePrefix @ ''Read'') toolInput =
           (if getStringArg toolInput ''file_path'' \<noteq> []
               \<and> matchesGlob env ''./.env'' (getStringArg toolInput ''file_path'') (cwd s)
            then \<lparr>Decision = PermissionDeny, Rule = ''Read(./.env)'', Source = ''deny''\<rparr>
            else \<lparr>Decision = PermissionAllow, Rule = ''Read'', Source = ''allow''\<rparr>)"
  using assms
  by (simp add: CheckPermission_def strings_HasPrefix_def parseRule_Read_env parseRule_Read
      matchesRule_Read_env matchesRule_Read_any)

lemma CheckPermission_deny_any_source:
  assumes "strings_HasPrefix name ACPToolNamePrefix"
    and "src \<in> {userSettings s, projectSettings s, localSettings s, enterpriseSettings s}"
    and "Permissions src = Some p" "r \<in> set (Deny p)"
    and "matchesRule env (parseRule r) name toolInput (cwd s)"
  shows "Decision (CheckPermission env (mergeSettings s) name toolInput) = PermissionDeny"
proof -
  from mergeSettings_rules [of s] obtain mp where
    mp: "Permissions (mergedSettings (mergeSettings s)) = Some mp"
        "Deny mp = concat (map Deny (List.map_filter Permissions
           [userSettings s, projectSettings s, localSettings s, enterpriseSettings s]))"
    by blast
  from assms(2,3) have "p \<in> set (List.map_filter Permissions
           [userSettings s, projectSettings s, localSettings s, enterpriseSettings s])"
    by (auto simp: List.map_filter_simps split: option.splits)
  with assms(4) mp(2) have "r \<in> set (Deny mp)" by auto
  with assms(5) have "\<exists>r\<in>set (Deny mp).
      matchesRule env (parseRule r) name toolInput (cwd (mergeSettings s))"
    by (auto simp: cwd_mergeSettings)
  from CheckPermission_deny [OF assms(1) mp(1) this] show ?thesis by auto
qed


text \<open>
  Claim C1. For an internally-namespaced tool and merged permission settings \<open>perms\<close>, the deny
  rules are evaluated first, then the allow rules, then the ask rules: the result is the
  decision of the first list that has a matching rule, with the first matching rule of that
  list recorded, and plain ask when no rule matches. A matching deny rule of any of the four
  sources gives deny after merging. With deny \<open>["Read(./.env)"]\<close> and allow \<open>["Read"]\<close>, a read
  whose path matches \<open>./.env\<close> is denied and a read of any other path is allowed; the read of
  \<open>./.env\<close> itself is denied as soon as the glob library matches that path against itself.
\<close>

theorem CheckPermission_precedence:
  fixes env :: os_env and toolInput :: "'f input"
  assumes "strings_HasPrefix name ACPToolNamePrefix"
    and "Permissions (mergedSettings s) = Some perms"
  defines "matches \<equiv> \<lambda>r. matchesRule env (parseRule r) name toolInput (cwd s)"
  shows
    "((\<exists>r\<in>set (Deny perms). matches r) \<longrightarrow>
        (\<exists>pre r post. Deny perms = pre @ r # post \<and> (\<forall>x\<in>set pre. \<not> matches x) \<and> matches r
           \<and> CheckPermission env s name toolInput
               = \<lparr>Decision = PermissionDeny, Rule = r, Source = ''deny''\<rparr>))
     \<and> ((\<forall>r\<in>set (Deny perms). \<not> matches r) \<and> (\<exists>r\<in>set (Allow perms). matches r) \<longrightarrow>
        (\<exists>pre r post. Allow perms = pre @ r # post \<and> (\<forall>x\<in>set pre. \<not> matches x) \<and> matches r
           \<and> CheckPermission env s name toolInput
               = \<lparr>Decision = PermissionAllow, Rule = r, Source = ''allow''\<rparr>))
     \<and> ((\<forall>r\<in>set (Deny perms). \<not> matches r) \<and> (\<forall>r\<in>set (Allow perms). \<not> matches r)
          \<and> (\<exists>r\<in>set (Ask perms). matches r) \<longrightarrow>
        (\<exists>pre r post. Ask perms = pre @ r # post \<and> (\<forall>x\<in>set pre. \<not> matches x) \<and> matches r
           \<and> CheckPermission env s name toolInput
               = \<lparr>Decision = PermissionAsk, Rule = r, Source = ''ask''\<rparr>))
     \<and> ((\<forall>r\<in>set (Deny perms). \<not> matches r) \<and> (\<forall>r\<in>set (Allow perms). \<not> matches r)
          \<and> (\<forall>r\<in>set (Ask perms). \<not> matches r) \<longrightarrow>
        CheckPermission env s name toolInput
          = \<lparr>Decision = PermissionAsk, Rule = [], Source = []\<rparr>)
     \<and> (\<forall>s0 src p r. src \<in> {userSettings s0, projectSettings s0, localSettings s0,
                               enterpriseSettings s0}
          \<and> Permissions src = Some p \<and> r \<in> set (Deny p)
          \<and> matchesRule env (parseRule r) name toolInput (cwd s0) \<longrightarrow>
          Decision (CheckPermission env (mergeSettings s0) name toolInput) = PermissionDeny)
     \<and> (Deny perms = [''Read(./.env)''] \<and> Allow perms = [''Read''] \<longrightarrow>
          (\<forall>readInput :: 'f input.
             CheckPermission env s (ACPToolNamePrefix @ ''Read'') readInput =
               (if getStringArg readInput ''file_path'' \<noteq> []
                   \<and> matchesGlob env ''./.env'' (getStringArg readInput ''file_path'') (cwd s)
                then \<lparr>Decision = PermissionDeny, Rule = ''Read(./.env)'', Source = ''deny''\<rparr>
                else \<lparr>Decision = PermissionAllow, Rule = ''Read'', Source = ''allow''\<rparr>))
          \<and> (matchesGlob env ''./.env'' ''./.env'' (cwd s) \<longrightarrow>
               CheckPermission env s (ACPToolNamePrefix @ ''Read'')
                   ([''file_path'' \<mapsto> AString ''./.env''] :: 'f input)
                 = \<lparr>Decision = PermissionDeny, Rule = ''Read(./.env)'', Source = ''deny''\<rparr>))"
proof (intro conjI impI allI)
  assume "\<exists>r\<in>set (Deny perms). matches r"
  then show "\<exists>pre r post. Deny perms = pre @ r # post \<and> (\<forall>x\<in>set pre. \<not> matches x) \<and> matches r
           \<and> CheckPermission env s name toolInput
               = \<lparr>Decision = PermissionDeny, Rule = r, Source = ''deny''\<rparr>"
    unfolding matches_def using assms(1,2) by (rule CheckPermission_deny [rotated 2])
next
  assume "(\<forall>r\<in>set (Deny perms). \<not> matches r) \<and> (\<exists>r\<in>set (Allow perms). matches r)"
  then show "\<exists>pre r post. Allow perms = pre @ r # post \<and> (\<forall>x\<in>set pre. \<not> matches x) \<and> matches r
           \<and> CheckPermission env s name toolInput
               = \<lparr>Decision = PermissionAllow, Rule = r, Source = ''allow''\<rparr>"
    unfolding matches_def using CheckPermission_allow [OF assms(1,2)] by blast
next
  assume "(\<forall>r\<in>set (Deny perms). \<not> matches r) \<and> (\<forall>r\<in>set (Allow perms). \<not> matches r)
          \<and> (\<exists>r\<in>set (Ask perms). matches r)"
  then show "\<exists>pre r post. Ask perms = pre @ r # post \<and> (\<forall>x\<in>set pre. \<not> matches x) \<and> matches r
           \<and> CheckPermission env s name toolInput
               = \<lparr>Decision = PermissionAsk, Rule = r, Source = ''ask''\<rparr>"
    unfolding matches_def using CheckPermission_ask [OF assms(1,2)] by blast
next
  assume "(\<forall>r\<in>set (Deny perms). \<not> matches r) \<and> (\<forall>r\<in>set (Allow perms). \<not> matches r)
          \<and> (\<forall>r\<in>set (Ask perms). \<not> matches r)"
  then show "CheckPermission env s name toolInput
          = \<lparr>Decision = PermissionAsk, Rule = [], Source = []\<rparr>"
    unfolding matches_def using CheckPermission_default [OF _ _ _ assms(2)] by blast
next
  fix s0 :: SettingsManager and src p r
  assume "src \<in> {userSettings s0, projectSettings s0, localSettings s0, enterpriseSettings s0}
          \<and> Permissions src = Some p \<and> r \<in> set (Deny p)
          \<and> matchesRule env (parseRule r) name toolInput (cwd s0)"
  then show "Decision (CheckPermission env (mergeSettings s0) name toolInput) = PermissionDeny"
    using CheckPermission_deny_any_source [OF assms(1)] by blast
next
  fix readInput
  assume "Deny perms = [''Read(./.env)''] \<and> Allow perms = [''Read'']"
  then show "CheckPermission env s (ACPToolNamePrefix @ ''Read'') readInput =
               (if getStringArg readInput ''file_path'' \<noteq> []
                   \<and> matchesGlob env ''./.env'' (getStringArg readInput ''file_path'') (cwd s)
                then \<lparr>Decision = PermissionDeny, Rule = ''Read(./.env)'', Source = ''deny''\<rparr>
                else \<lparr>Decision = PermissionAllow, Rule = ''Read'', Source = ''allow''\<rparr>)"
    using CheckPermission_read_env [OF assms(2)] by blast
next
  assume "Deny perms = [''Read(./.env)''] \<and> Allow perms = [''Read'']"
    and "matchesGlob env ''./.env'' ''./.env'' (cwd s)"
  then show "CheckPermission env s (ACPToolNamePrefix @ ''Read'')
                   ([''file_path'' \<mapsto> AString ''./.env''] :: 'f input)
                 = \<lparr>Decision = PermissionDeny, Rule = ''Read(./.env)'', Source = ''deny''\<rparr>"
    using CheckPermission_read_env [OF assms(2), of env
        "[''file_path'' \<mapsto> AString ''./.env''] :: 'f input"]
    by (simp add: getStringArg_def)
qed


lemma example_merged:
  "Permissions (mergedSettings (mergeSettings example_sources))
     = Some \<lparr>Allow = [''Read''], Deny = [''Read(./.env)''], Ask = [''Read(./*)''],
              AdditionalDirectories = [], DefaultMode = []\<rparr>"
  by (simp add: mergeSettings_def example_sources_def mergeStep_def Let_def)

lemma example_cwd: "cwd (mergeSettings example_sources) = ''/test''"
  by (simp add: cwd_mergeSettings example_sources_def)

lemma literal_env_matchesGlob:
  "matchesGlob literal_env ''./.env'' ''./.env'' ''/test''"
  "\<not> matchesGlob literal_env ''./.env'' ''./other.txt'' ''/test''"
  by (simp_all add: matchesGlob_def normalizePath_def literal_env_def strings_HasPrefix_def Let_def)

theorem CheckPermission_precedence_witness:
  "CheckPermission literal_env (mergeSettings example_sources) (ACPToolNamePrefix @ ''Read'')
       ([''file_path'' \<mapsto> AString ''./.env''] :: unit input)
     = \<lparr>Decision = PermissionDeny, Rule = ''Read(./.env)'', Source = ''deny''\<rparr>
   \<and> CheckPermission literal_env (mergeSettings example_sources) (ACPToolNamePrefix @ ''Read'')
       ([''file_path'' \<mapsto> AString ''./other.txt''] :: unit input)
     = \<lparr>Decision = PermissionAllow, Rule = ''Read'', Source = ''allow''\<rparr>"
proof -
  have pre: "strings_HasPrefix (ACPToolNamePrefix @ ''Read'') ACPToolNamePrefix"
    by (simp add: strings_HasPrefix_def)
  have arg: "getStringArg ([''file_path'' \<mapsto> AString ''./.env''] :: unit input) ''file_path'' = ''./.env''"
    "getStringArg ([''file_path'' \<mapsto> AString ''./other.txt''] :: unit input) ''file_path'' = ''./other.txt''"
    by (simp_all add: getStringArg_def)
  from CheckPermission_precedence [OF pre example_merged, of literal_env
      "[''file_path'' \<mapsto> AString ''./.env''] :: unit input"]
  have "\<forall>readInput :: unit input.
          CheckPermission literal_env (mergeSettings example_sources)
              (ACPToolNamePrefix @ ''Read'') readInput =
            (if getStringArg readInput ''file_path'' \<noteq> []
                \<and> matchesGlob literal_env ''./.env'' (getStringArg readInput ''file_path'') ''/test''
             then \<lparr>Decision = PermissionDeny, Rule = ''Read(./.env)'', Source = ''deny''\<rparr>
             else \<lparr>Decision = PermissionAllow, Rule = ''Read'', Source = ''allow''\<rparr>)"
    by (simp add: example_cwd)
  then show ?thesis
    by (simp add: arg literal_env_matchesGlob)
qed

text \<open>
  Claim C6. For every tool name that does not start with \<open>mcp__acp__\<close>, whatever the settings
  and the tool input, the permission check returns ask with no rule recorded: no rule list is
  consulted.
\<close>

theorem CheckPermission_non_namespaced:
  "\<not> strings_HasPrefix name ACPToolNamePrefix \<Longrightarrow>
     CheckPermission env s name toolInput = \<lparr>Decision = PermissionAsk, Rule = [], Source = []\<rparr>"
  by (simp add: CheckPermission_def)

theorem CheckPermission_non_namespaced_witness:
  "\<not> strings_HasPrefix ''Read'' ACPToolNamePrefix
   \<and> CheckPermission literal_env (mergeSettings example_sources) ''Read''
       ([''file_path'' \<mapsto> AString ''./.env''] :: unit input)
     = \<lparr>Decision = PermissionAsk, Rule = [], Source = []\<rparr>"
proof -
  have n: "\<not> strings_HasPrefix ''Read'' ACPToolNamePrefix"
    by (simp add: strings_HasPrefix_def ACPToolNamePrefix_def)
  from n CheckPermission_non_namespaced [OF n] show ?thesis by simp
qed


subsection \<open>Shell rules\<close>

lemma toolArgAccessors_Bash:
  "toolArgAccessors (ACPToolNamePrefix @ ''Bash'') = Some (\<lambda>input. getStringArg input ''command'')"
  by (simp add: toolArgAccessors_def ACPToolNamePrefix_def)

lemma matchesRule_Bash_wildcard:
  assumes "p \<noteq> []"
  shows "matchesRule env \<lparr>toolName = ''Bash'', argument = p, isWildcard = True\<rparr>
           (ACPToolNamePrefix @ ''Bash'') toolInput dir
         \<longleftrightarrow> prefix p (getStringArg toolInput ''command'')
             \<and> \<not> containsShellOperator (drop (length p) (getStringArg toolInput ''command''))"
  using assms
  by (auto simp: matchesRule_def toolArgAccessors_Bash Let_def strings_HasPrefix_def)

lemma matchesRule_Bash_exact:
  assumes "a \<noteq> []"
  shows "matchesRule env \<lparr>toolName = ''Bash'', argument = a, isWildcard = False\<rparr>
           (ACPToolNamePrefix @ ''Bash'') toolInput dir
         \<longleftrightarrow> getStringArg toolInput ''command'' = a"
  using assms
  by (auto simp: matchesRule_def toolArgAccessors_Bash Let_def)

lemma matchesRule_Bash_no_argument:
  "matchesRule env \<lparr>toolName = ''Bash'', argument = [], isWildcard = w\<rparr>
           (ACPToolNamePrefix @ ''Bash'') toolInput dir"
  by (simp add: matchesRule_def)

text \<open>
  Claim C2 as stated fails for the empty prefix. The rule \<open>Bash(:*)\<close> parses to a wildcard rule
  with prefix \<open>""\<close>; the command \<open>ls && rm -rf /\<close> starts with that prefix and the remainder after
  it contains \<open>&&\<close>, yet the rule matches: a rule whose argument is empty matches every
  invocation before any prefix is looked at.
\<close>

theorem matchesRule_empty_prefix_counterexample:
  "parseRule ''Bash(:*)'' = \<lparr>toolName = ''Bash'', argument = [], isWildcard = True\<rparr>
   \<and> containsShellOperator (drop (length (argument (parseRule ''Bash(:*)''))) ''ls && rm -rf /'')
   \<and> matchesRule literal_env (parseRule ''Bash(:*)'') (ACPToolNamePrefix @ ''Bash'')
         ([''command'' \<mapsto> AString ''ls && rm -rf /''] :: unit input) ''/test''"
  by (simp add: parseRule_Bash_empty_prefix matchesRule_Bash_no_argument
      containsShellOperator_def shellOperators_def strings_Contains_def)

text \<open>
  Claim C2, amended. For the shell-execution tool and a command \<open>c\<close> (the string under
  \<open>command\<close>, or the empty string): a wildcard rule with a non-empty prefix \<open>p\<close> matches if and
  only if \<open>c\<close> starts with \<open>p\<close> and the remainder of \<open>c\<close> after \<open>p\<close> contains none of \<open>&&\<close>,
  \<open>||\<close>, \<open>;\<close>, \<open>|\<close>, \<open>$(\<close>, backtick and newline; a non-wildcard rule with a non-empty argument
  matches if and only if \<open>c\<close> equals the argument; a rule whose argument is empty, wildcard or
  not, matches every command.
\<close>

theorem matchesRule_shell:
  fixes toolInput :: "'f input"
  defines "c \<equiv> getStringArg toolInput ''command''"
  shows
    "(p \<noteq> [] \<longrightarrow>
        (matchesRule env \<lparr>toolName = ''Bash'', argument = p, isWildcard = True\<rparr>
             (ACPToolNamePrefix @ ''Bash'') toolInput dir
         \<longleftrightarrow> prefix p c
             \<and> (\<forall>op\<in>{''&&'', ''||'', '';'', ''|'', ''$('', [BQ], [NL]}.
                    \<not> sublist op (drop (length p) c))))
     \<and> (p \<noteq> [] \<longrightarrow>
        (matchesRule env \<lparr>toolName = ''Bash'', argument = p, isWildcard = False\<rparr>
             (ACPToolNamePrefix @ ''Bash'') toolInput dir
         \<longleftrightarrow> c = p))
     \<and> matchesRule env \<lparr>toolName = ''Bash'', argument = [], isWildcard = w\<rparr>
             (ACPToolNamePrefix @ ''Bash'') toolInput dir"
  unfolding c_def
  by (simp add: matchesRule_Bash_wildcard matchesRule_Bash_exact matchesRule_Bash_no_argument
      containsShellOperator_iff)

theorem matchesRule_shell_witness:
  "matchesRule literal_env (parseRule ''Bash(npm run:*)'') (ACPToolNamePrefix @ ''Bash'')
       ([''command'' \<mapsto> AString ''npm run lint''] :: unit input) ''/test''
   \<and> matchesRule literal_env (parseRule ''Bash(npm run:*)'') (ACPToolNamePrefix @ ''Bash'')
       ([''command'' \<mapsto> AString ''npm run''] :: unit input) ''/test''
   \<and> \<not> matchesRule literal_env (parseRule ''Bash(npm run:*)'') (ACPToolNamePrefix @ ''Bash'')
       ([''command'' \<mapsto> AString ''npm run && malicious''] :: unit input) ''/test''
   \<and> \<not> matchesRule literal_env \<lparr>toolName = ''Bash'', argument = ''npm run lint'', isWildcard = False\<rparr>
       (ACPToolNamePrefix @ ''Bash'')
       ([''command'' \<mapsto> AString ''npm run test''] :: unit input) ''/test''"
proof -
  have ne: "''npm run'' \<noteq> []" "''npm run lint'' \<noteq> []" by simp_all
  have ops: "\<forall>op\<in>{''&&'', ''||'', '';'', ''|'', ''$('', [BQ], [NL]}. \<not> sublist op '' lint''"
    "\<forall>op\<in>{''&&'', ''||'', '';'', ''|'', ''$('', [BQ], [NL]}. \<not> sublist op []"
    "\<not> (\<forall>op\<in>{''&&'', ''||'', '';'', ''|'', ''$('', [BQ], [NL]}. \<not> sublist op '' && malicious'')"
    unfolding containsShellOperator_iff [symmetric] bex_simps(8) [symmetric]
    by (simp_all add: containsShellOperator_def shellOperators_def strings_Contains_def)
  show ?thesis
    using ops
      matchesRule_shell [of "''npm run''" literal_env
        "[''command'' \<mapsto> AString ''npm run lint''] :: unit input" "''/test''"]
      matchesRule_shell [of "''npm run''" literal_env
        "[''command'' \<mapsto> AString ''npm run''] :: unit input" "''/test''"]
      matchesRule_shell [of "''npm run''" literal_env
        "[''command'' \<mapsto> AString ''npm run && malicious''] :: unit input" "''/test''"]
      matchesRule_shell [of "''npm run lint''" literal_env
        "[''command'' \<mapsto> AString ''npm run test''] :: unit input" "''/test''"]
    by (simp add: parseRule_Bash_npm_run getStringArg_def)
qed

section \<open>The diff engine\<close>

subsection \<open>Computing a unified diff\<close>

record diffHunk =
  oldStart :: nat
  oldCount :: nat
  newStart :: nat
  newCount :: nat
  lines :: "string list"

text \<open>The local struct \<open>diffOp\<close> of \<open>computeDiffHunks\<close>; the field \<open>op\<close> is one of space, minus and plus.\<close>

record diffOp =
  op :: char
  line :: string
  oldN :: nat
  newN :: nat

definition splitLines :: "string \<Rightarrow> string list" where
  "splitLines content = (if content = [] then [] else strings_Split content NL)"

text \<open>
  The table \<open>lcs\<close>, a list of \<open>m + 1\<close> rows of \<open>n + 1\<close> entries. The last row and the last column
  are zero; \<open>lcsRow\<close> fills row \<open>i\<close> from right to left out of row \<open>i + 1\<close>, as the inner loop does,
  and \<open>lcsTable\<close> fills the rows from the bottom, as the outer loop does.
\<close>

fun lcsRow :: "string \<Rightarrow> string list \<Rightarrow> nat list \<Rightarrow> nat list" where
  "lcsRow x [] below = [0]"
| "lcsRow x (y # ys) below =
     (let row = lcsRow x ys (tl below)
      in (if x = y then below ! 1 + 1
          else if below ! 0 > row ! 0 then below ! 0
          else row ! 0) # row)"

definition lcsTable :: "string list \<Rightarrow> string list \<Rightarrow> nat list list" where
  "lcsTable oldLines newLines =
     foldr (\<lambda>x rows. lcsRow x newLines (rows ! 0) # rows) oldLines
       [replicate (length newLines + 1) 0]"

text \<open>
  The first loop over the table: it appends to \<open>ops\<close> while both indices are in range, and
  leaves the indices it stopped at.
\<close>

function lcsWalk ::
  "string list \<Rightarrow> string list \<Rightarrow> nat list list \<Rightarrow> nat \<Rightarrow> nat \<Rightarrow> diffOp list
     \<Rightarrow> diffOp list \<times> nat \<times> nat" where
  "lcsWalk oldLines newLines lcs i j ops =
     (if i < length oldLines \<and> j < length newLines then
        (if oldLines ! i = newLines ! j then
           lcsWalk oldLines newLines lcs (i + 1) (j + 1)
             (ops @ [\<lparr>op = CHR '' '', line = oldLines ! i, oldN = i, newN = j\<rparr>])
         else if lcs ! (i + 1) ! j \<ge> lcs ! i ! (j + 1) then
           lcsWalk oldLines newLines lcs (i + 1) j
             (ops @ [\<lparr>op = CHR ''-'', line = oldLines ! i, oldN = i, newN = j\<rparr>])
         else
           lcsWalk oldLines newLines lcs i (j + 1)
             (ops @ [\<lparr>op = CHR ''+'', line = newLines ! j, oldN = i, newN = j\<rparr>]))
      else (ops, i, j))"
  by pat_completeness auto
termination
  by (relation "measure (\<lambda>(oldLines, newLines, lcs, i, j, ops).
        (length oldLines - i) + (length newLines - j))") auto

declare lcsWalk.simps [simp del]

text \<open>The edit script: the walk, then the rest of the old lines, then the rest of the new.\<close>

definition diffOps :: "string list \<Rightarrow> string list \<Rightarrow> diffOp list" where
  "diffOps oldLines newLines =
     (let m = length oldLines;
          n = length newLines;
          lcs = lcsTable oldLines newLines
      in case lcsWalk oldLines newLines lcs 0 0 [] of
           (ops, i, j) \<Rightarrow>
             (let ops = ops @ map (\<lambda>i'. \<lparr>op = CHR ''-'', line = oldLines ! i', oldN = i', newN = j\<rparr>)
                                 [i..<m];
                  i = (if i < m then m else i)
              in ops @ map (\<lambda>j'. \<lparr>op = CHR ''+'', line = newLines ! j', oldN = i, newN = j'\<rparr>)
                           [j..<n]))"

definition contextLines :: nat where
  "contextLines = 3"

text \<open>The loop that copies the context before the first change of a hunk.\<close>

definition leadingStep :: "diffOp list \<Rightarrow> diffHunk \<Rightarrow> nat \<Rightarrow> diffHunk" where
  "leadingStep ops h ci =
     (if op (ops ! ci) = CHR '' '' then
        (let h = h\<lparr>lines := lines h @ [CHR '' '' # line (ops ! ci)],
                   oldCount := oldCount h + 1,
                   newCount := newCount h + 1\<rparr>
         in if oldCount h = 1 \<and> newCount h = 1
            then h\<lparr>oldStart := oldN (ops ! ci), newStart := newN (ops ! ci)\<rparr>
            else h)
      else h)"

text \<open>The loop that copies the context after the last change of a hunk.\<close>

definition trailingStep :: "diffOp list \<Rightarrow> diffHunk \<Rightarrow> nat \<Rightarrow> diffHunk" where
  "trailingStep ops h ci =
     (if op (ops ! ci) = CHR '' '' then
        h\<lparr>lines := lines h @ [CHR '' '' # line (ops ! ci)],
          oldCount := oldCount h + 1,
          newCount := newCount h + 1\<rparr>
      else h)"

text \<open>
  One round of the loop over \<open>ops\<close>; the state is the list \<open>hunks\<close> and \<open>currentHunk\<close>, which is
  \<open>None\<close> for the \<open>nil\<close> pointer.
\<close>

definition hunkStep ::
  "diffOp list \<Rightarrow> diffHunk list \<times> diffHunk option \<Rightarrow> nat \<Rightarrow> diffHunk list \<times> diffHunk option" where
  "hunkStep ops state idx =
     (case state of (hunks, currentHunk) \<Rightarrow>
        (let opr = ops ! idx in
         if op opr \<noteq> CHR '' '' then
           (let h = (case currentHunk of
                       Some h \<Rightarrow> h
                     | None \<Rightarrow>
                         (let start = (if idx < contextLines then 0 else idx - contextLines);
                              h = foldl (leadingStep ops)
                                    \<lparr>oldStart = 0, oldCount = 0, newStart = 0, newCount = 0,
                                     lines = []\<rparr> [start..<idx]
                          in if oldCount h = 0 \<and> newCount h = 0
                             then h\<lparr>oldStart := oldN opr, newStart := newN opr\<rparr>
                             else h));
                h = h\<lparr>lines := lines h @ [op opr # line opr]\<rparr>
            in if op opr = CHR ''-''
               then (hunks, Some (h\<lparr>oldCount := oldCount h + 1\<rparr>))
               else (hunks, Some (h\<lparr>newCount := newCount h + 1\<rparr>)))
         else
           (case currentHunk of
              None \<Rightarrow> (hunks, None)
            | Some h \<Rightarrow>
                (let limit = (if idx + 2 * contextLines + 1 > length ops then length ops
                              else idx + 2 * contextLines + 1);
                     nextChange = find (\<lambda>ni. op (ops ! ni) \<noteq> CHR '' '') [idx + 1..<limit]
                 in if nextChange \<noteq> None then
                      (hunks, Some (h\<lparr>lines := lines h @ [CHR '' '' # line opr],
                                      oldCount := oldCount h + 1,
                                      newCount := newCount h + 1\<rparr>))
                    else
                      (let trailEnd = (if idx + contextLines \<ge> length ops then length ops - 1
                                       else idx + contextLines)
                       in (hunks @ [foldl (trailingStep ops) h [idx..<trailEnd + 1]], None))))))"

definition computeDiffHunks :: "string list \<Rightarrow> string list \<Rightarrow> diffHunk list" where
  "computeDiffHunks oldLines newLines =
     (let ops = diffOps oldLines newLines
      in case foldl (hunkStep ops) ([], None) [0..<length ops] of
           (hunks, Some h) \<Rightarrow> hunks @ [h]
         | (hunks, None) \<Rightarrow> hunks)"

definition hunkText :: "diffHunk \<Rightarrow> string" where
  "hunkText hunk =
     ''@@ -'' @ fmt_d (int (oldStart hunk + 1)) @ '','' @ fmt_d (int (oldCount hunk))
       @ '' +'' @ fmt_d (int (newStart hunk + 1)) @ '','' @ fmt_d (int (newCount hunk))
       @ '' @@'' @ [NL]
       @ concat (map (\<lambda>l. l @ [NL]) (lines hunk))"

definition createUnifiedDiff :: "string \<Rightarrow> string \<Rightarrow> string \<Rightarrow> string" where
  "createUnifiedDiff filename oldContent newContent =
     (let oldLines = splitLines oldContent;
          newLines = splitLines newContent;
          hunks = computeDiffHunks oldLines newLines
      in if length hunks = 0 then []
         else ''--- a/'' @ filename @ [NL] @ ''+++ b/'' @ filename @ [NL]
              @ concat (map hunkText hunks))"

subsection \<open>Parsing a unified diff\<close>

record toolsDiffHunk =
  newStart' :: int
  lines' :: "string list"

record toolsDiffPatch =
  oldFileName :: string
  newFileName :: string
  hunks :: "toolsDiffHunk list"

text \<open>Go's \<open>int\<close> has 64 bits: \<open>n*10 + d\<close> wraps around.\<close>

definition wrap64 :: "int \<Rightarrow> int" where
  "wrap64 x = (x + 2 ^ 63) mod 2 ^ 64 - 2 ^ 63"

text \<open>The digit loop of \<open>parseHunkHeader\<close>: it stops at the first byte that is not a digit.\<close>

fun digitLoop :: "int \<Rightarrow> string \<Rightarrow> int" where
  "digitLoop n [] = n"
| "digitLoop n (c # cs) =
     (if c \<in> set ''0123456789''
      then digitLoop (wrap64 (n * 10 + (int (of_char c) - 48))) cs
      else n)"

definition parseHunkHeader :: "string \<Rightarrow> int" where
  "parseHunkHeader l =
     (case strings_Index l ''+'' of
        None \<Rightarrow> 1
      | Some k \<Rightarrow>
          (let numStr = takeWhile (\<lambda>c. c \<noteq> CHR '','') (drop (k + 1) l);
               numStr = takeWhile (\<lambda>c. c \<noteq> CHR '' '') numStr;
               n = digitLoop 0 numStr
           in if n = 0 then 1 else n))"

text \<open>
  One round of the loop of \<open>parseUnifiedDiff\<close>; the state is \<open>patches\<close>, \<open>current\<close> and
  \<open>currentHunk\<close>, the two pointers being options.
\<close>

definition parseStep ::
  "toolsDiffPatch list \<times> toolsDiffPatch option \<times> toolsDiffHunk option \<Rightarrow> string
     \<Rightarrow> toolsDiffPatch list \<times> toolsDiffPatch option \<times> toolsDiffHunk option" where
  "parseStep state l =
     (case state of (patches, current, currentHunk) \<Rightarrow>
        if strings_HasPrefix l ''--- '' then
          (let patches =
                 (case current of
                    None \<Rightarrow> patches
                  | Some cur \<Rightarrow>
                      patches @ [case currentHunk of
                                   None \<Rightarrow> cur
                                 | Some h \<Rightarrow> cur\<lparr>hunks := hunks cur @ [h]\<rparr>])
           in (patches, Some \<lparr>oldFileName = drop 4 l, newFileName = [], hunks = []\<rparr>, None))
        else if strings_HasPrefix l ''+++ '' \<and> current \<noteq> None then
          (patches, map_option (\<lambda>cur. cur\<lparr>newFileName := drop 4 l\<rparr>) current, currentHunk)
        else if strings_HasPrefix l ''@@'' \<and> current \<noteq> None then
          (let current =
                 (case currentHunk of
                    None \<Rightarrow> current
                  | Some h \<Rightarrow> map_option (\<lambda>cur. cur\<lparr>hunks := hunks cur @ [h]\<rparr>) current)
           in (patches, current, Some \<lparr>newStart' = parseHunkHeader l, lines' = []\<rparr>))
        else
          (case currentHunk of
             None \<Rightarrow> (patches, current, None)
           | Some h \<Rightarrow>
               if strings_HasPrefix l ''+'' \<or> strings_HasPrefix l ''-'' \<or> strings_HasPrefix l '' ''
               then (patches, current, Some (h\<lparr>lines' := lines' h @ [l]\<rparr>))
               else (patches, current, Some h)))"

definition parseUnifiedDiff :: "string \<Rightarrow> toolsDiffPatch list" where
  "parseUnifiedDiff text =
     (case foldl parseStep ([], None, None) (strings_Split text NL) of
        (patches, None, currentHunk) \<Rightarrow> patches
      | (patches, Some cur, None) \<Rightarrow> patches @ [cur]
      | (patches, Some cur, Some h) \<Rightarrow> patches @ [cur\<lparr>hunks := hunks cur @ [h]\<rparr>])"

subsection \<open>Identical texts\<close>

lemma lcsWalk_same:
  "i \<le> length xs \<Longrightarrow>
   lcsWalk xs xs lcs i i ops =
     (ops @ map (\<lambda>k. \<lparr>op = CHR '' '', line = xs ! k, oldN = k, newN = k\<rparr>) [i..<length xs],
      length xs, length xs)"
proof (induction "length xs - i" arbitrary: i ops)
  case 0
  then show ?case by (subst lcsWalk.simps) simp
next
  case (Suc d)
  then have lt: "i < length xs" and d: "d = length xs - (i + 1)" by simp_all
  from lt have "Suc i \<le> length xs" by simp
  from Suc(1) [OF d, of "ops @ [\<lparr>op = CHR '' '', line = xs ! i, oldN = i, newN = i\<rparr>]"] this lt
  show ?case
    by (subst lcsWalk.simps) (simp add: upt_conv_Cons)
qed

lemma diffOps_same:
  "diffOps xs xs = map (\<lambda>k. \<lparr>op = CHR '' '', line = xs ! k, oldN = k, newN = k\<rparr>) [0..<length xs]"
  by (simp add: diffOps_def Let_def lcsWalk_same)

lemma hunkStep_context_closed:
  "op (ops ! idx) = CHR '' '' \<Longrightarrow> hunkStep ops (hs, None) idx = (hs, None)"
  by (simp add: hunkStep_def Let_def)

lemma foldl_hunkStep_all_context:
  "\<forall>idx\<in>set idxs. op (ops ! idx) = CHR '' '' \<Longrightarrow>
   foldl (hunkStep ops) (hs, None) idxs = (hs, None)"
  by (induction idxs) (simp_all add: hunkStep_context_closed)

lemma computeDiffHunks_same: "computeDiffHunks xs xs = []"
proof -
  let ?ops = "diffOps xs xs"
  have "\<forall>idx\<in>set [0..<length ?ops]. op (?ops ! idx) = CHR '' ''"
    by (simp add: diffOps_same)
  then have "foldl (hunkStep ?ops) ([], None) [0..<length ?ops] = ([], None)"
    by (rule foldl_hunkStep_all_context)
  then show ?thesis
    by (simp add: computeDiffHunks_def Let_def)
qed

lemma createUnifiedDiff_same: "createUnifiedDiff filename X X = []"
  by (simp add: createUnifiedDiff_def Let_def computeDiffHunks_same)

subsection \<open>The examples\<close>

lemma splitLines_line1_line3:
  "splitLines (''line1'' @ [NL] @ ''line3'') = [''line1'', ''line3'']"
  "splitLines (''line1'' @ [NL] @ ''line2'' @ [NL] @ ''line3'') = [''line1'', ''line2'', ''line3'']"
  by (simp_all add: splitLines_def)

lemma diffOps_insert_line2:
  "diffOps [''line1'', ''line3''] [''line1'', ''line2'', ''line3''] =
     [\<lparr>op = CHR '' '', line = ''line1'', oldN = 0, newN = 0\<rparr>,
      \<lparr>op = CHR ''+'', line = ''line2'', oldN = 1, newN = 1\<rparr>,
      \<lparr>op = CHR '' '', line = ''line3'', oldN = 1, newN = 2\<rparr>]"
  by (simp add: diffOps_def lcsTable_def lcsWalk.simps Let_def)

lemma computeDiffHunks_insert_line2:
  "computeDiffHunks [''line1'', ''line3''] [''line1'', ''line2'', ''line3''] =
     [\<lparr>oldStart = 0, oldCount = 2, newStart = 0, newCount = 3,
       lines = ['' line1'', ''+line2'', '' line3'']\<rparr>]"
  by (simp add: computeDiffHunks_def diffOps_insert_line2 hunkStep_def leadingStep_def
      trailingStep_def contextLines_def Let_def upt_rec)


lemma fmt_d_small:
  "fmt_d 0 = ''0''" "fmt_d 1 = ''1''" "fmt_d 2 = ''2''" "fmt_d 3 = ''3''"
  by (simp_all add: fmt_d_def fmt_nat.simps)

lemma createUnifiedDiff_insert_line2:
  "createUnifiedDiff filename (''line1'' @ [NL] @ ''line3'')
       (''line1'' @ [NL] @ ''line2'' @ [NL] @ ''line3'')
     = ''--- a/'' @ filename @ [NL] @ ''+++ b/'' @ filename @ [NL]
       @ ''@@ -1,2 +1,3 @@'' @ [NL]
       @ '' line1'' @ [NL] @ ''+line2'' @ [NL] @ '' line3'' @ [NL]"
  by (simp add: createUnifiedDiff_def splitLines_def computeDiffHunks_insert_line2
      hunkText_def fmt_d_small Let_def)

lemma parseHunkHeader_examples:
  "parseHunkHeader ''@@ -1,2 +1,3 @@'' = 1"
  "parseHunkHeader ''@@ -1,1 +1,1 @@'' = 1"
  by (simp_all add: parseHunkHeader_def wrap64_def Let_def)

lemma parseUnifiedDiff_insert_line2:
  "parseUnifiedDiff (''--- a/'' @ ''test.go'' @ [NL] @ ''+++ b/'' @ ''test.go'' @ [NL]
       @ ''@@ -1,2 +1,3 @@'' @ [NL]
       @ '' line1'' @ [NL] @ ''+line2'' @ [NL] @ '' line3'' @ [NL])
     = [\<lparr>oldFileName = ''a/test.go'', newFileName = ''b/test.go'',
         hunks = [\<lparr>newStart' = 1, lines' = ['' line1'', ''+line2'', '' line3'']\<rparr>]\<rparr>]"
  by (simp add: parseUnifiedDiff_def parseStep_def strings_HasPrefix_def parseHunkHeader_examples)

lemma diffOps_replace:
  "diffOps [''-- x''] [''y''] =
     [\<lparr>op = CHR ''-'', line = ''-- x'', oldN = 0, newN = 0\<rparr>,
      \<lparr>op = CHR ''+'', line = ''y'', oldN = 1, newN = 0\<rparr>]"
  by (simp add: diffOps_def lcsTable_def lcsWalk.simps Let_def)

lemma computeDiffHunks_replace:
  "computeDiffHunks [''-- x''] [''y''] =
     [\<lparr>oldStart = 0, oldCount = 1, newStart = 0, newCount = 1, lines = [''--- x'', ''+y'']\<rparr>]"
  by (simp add: computeDiffHunks_def diffOps_replace hunkStep_def leadingStep_def
      trailingStep_def contextLines_def Let_def upt_rec)

lemma createUnifiedDiff_replace:
  "createUnifiedDiff ''f'' ''-- x'' ''y''
     = ''--- a/f'' @ [NL] @ ''+++ b/f'' @ [NL] @ ''@@ -1,1 +1,1 @@'' @ [NL]
       @ ''--- x'' @ [NL] @ ''+y'' @ [NL]"
  by (simp add: createUnifiedDiff_def splitLines_def computeDiffHunks_replace
      hunkText_def fmt_d_small Let_def)

lemma parseUnifiedDiff_replace:
  "parseUnifiedDiff (''--- a/f'' @ [NL] @ ''+++ b/f'' @ [NL] @ ''@@ -1,1 +1,1 @@'' @ [NL]
       @ ''--- x'' @ [NL] @ ''+y'' @ [NL])
     = [\<lparr>oldFileName = ''a/f'', newFileName = ''b/f'',
         hunks = [\<lparr>newStart' = 1, lines' = []\<rparr>]\<rparr>,
        \<lparr>oldFileName = ''x'', newFileName = [], hunks = []\<rparr>]"
  by (simp add: parseUnifiedDiff_def parseStep_def strings_HasPrefix_def parseHunkHeader_examples)


text \<open>
  Claim C7. The diff of a text with itself is the empty output, for every text and file name.
  The diff from \<open>line1\nline3\<close> to \<open>line1\nline2\nline3\<close> is one hunk, \<open>@@ -1,2 +1,3 @@\<close>, whose
  added lines are exactly \<open>line2\<close> and which removes no line, both as computed and as parsed
  back from the rendered text.
\<close>

theorem createUnifiedDiff_identical_and_insertion:
  "createUnifiedDiff filename X X = []
   \<and> createUnifiedDiff filename (''line1'' @ [NL] @ ''line3'')
         (''line1'' @ [NL] @ ''line2'' @ [NL] @ ''line3'')
       = ''--- a/'' @ filename @ [NL] @ ''+++ b/'' @ filename @ [NL]
         @ ''@@ -1,2 +1,3 @@'' @ [NL]
         @ '' line1'' @ [NL] @ ''+line2'' @ [NL] @ '' line3'' @ [NL]
   \<and> (\<exists>h. computeDiffHunks (splitLines (''line1'' @ [NL] @ ''line3''))
              (splitLines (''line1'' @ [NL] @ ''line2'' @ [NL] @ ''line3'')) = [h]
          \<and> map (drop 1) (filter (\<lambda>l. strings_HasPrefix l ''+'') (lines h)) = [''line2'']
          \<and> filter (\<lambda>l. strings_HasPrefix l ''-'') (lines h) = [])
   \<and> (\<exists>p h. parseUnifiedDiff (createUnifiedDiff ''test.go'' (''line1'' @ [NL] @ ''line3'')
                (''line1'' @ [NL] @ ''line2'' @ [NL] @ ''line3'')) = [p]
          \<and> hunks p = [h]
          \<and> map (drop 1) (filter (\<lambda>l. strings_HasPrefix l ''+'') (lines' h)) = [''line2'']
          \<and> filter (\<lambda>l. strings_HasPrefix l ''-'') (lines' h) = [])"
proof (intro conjI)
  show "createUnifiedDiff filename X X = []"
    by (rule createUnifiedDiff_same)
  show "createUnifiedDiff filename (''line1'' @ [NL] @ ''line3'')
         (''line1'' @ [NL] @ ''line2'' @ [NL] @ ''line3'')
       = ''--- a/'' @ filename @ [NL] @ ''+++ b/'' @ filename @ [NL]
         @ ''@@ -1,2 +1,3 @@'' @ [NL]
         @ '' line1'' @ [NL] @ ''+line2'' @ [NL] @ '' line3'' @ [NL]"
    by (rule createUnifiedDiff_insert_line2)
  show "\<exists>h. computeDiffHunks (splitLines (''line1'' @ [NL] @ ''line3''))
              (splitLines (''line1'' @ [NL] @ ''line2'' @ [NL] @ ''line3'')) = [h]
          \<and> map (drop 1) (filter (\<lambda>l. strings_HasPrefix l ''+'') (lines h)) = [''line2'']
          \<and> filter (\<lambda>l. strings_HasPrefix l ''-'') (lines h) = []"
    unfolding splitLines_line1_line3 computeDiffHunks_insert_line2
    by (simp add: strings_HasPrefix_def)
  show "\<exists>p h. parseUnifiedDiff (createUnifiedDiff ''test.go'' (''line1'' @ [NL] @ ''line3'')
                (''line1'' @ [NL] @ ''line2'' @ [NL] @ ''line3'')) = [p]
          \<and> hunks p = [h]
          \<and> map (drop 1) (filter (\<lambda>l. strings_HasPrefix l ''+'') (lines' h)) = [''line2'']
          \<and> filter (\<lambda>l. strings_HasPrefix l ''-'') (lines' h) = []"
    unfolding createUnifiedDiff_insert_line2 parseUnifiedDiff_insert_line2
    by (simp add: strings_HasPrefix_def)
qed

lemma parseUnifiedDiff_empty: "parseUnifiedDiff [] = []"
  by (simp add: parseUnifiedDiff_def parseStep_def strings_HasPrefix_def)

text \<open>
  Claim C3 fails on the code. From \<open>-- x\<close> to \<open>y\<close> (no common line) the diff has one hunk with
  the removed line rendered as \<open>--- x\<close> and the added line as \<open>+y\<close>. The parser takes the
  rendered removed line for the file header of a new patch: the hunk is closed with no line
  at all, and \<open>+y\<close> is dropped because no hunk is open. Neither text can be rebuilt from the
  parsed hunks. (For identical texts the round trip does give the empty list of patches.)
\<close>

theorem parseUnifiedDiff_createUnifiedDiff_header_collision:
  "createUnifiedDiff ''f'' ''-- x'' ''y''
     = ''--- a/f'' @ [NL] @ ''+++ b/f'' @ [NL] @ ''@@ -1,1 +1,1 @@'' @ [NL]
       @ ''--- x'' @ [NL] @ ''+y'' @ [NL]
   \<and> parseUnifiedDiff (createUnifiedDiff ''f'' ''-- x'' ''y'')
     = [\<lparr>oldFileName = ''a/f'', newFileName = ''b/f'',
         hunks = [\<lparr>newStart' = 1, lines' = []\<rparr>]\<rparr>,
        \<lparr>oldFileName = ''x'', newFileName = [], hunks = []\<rparr>]
   \<and> parseUnifiedDiff (createUnifiedDiff filename X X) = []"
  unfolding createUnifiedDiff_replace parseUnifiedDiff_replace createUnifiedDiff_same
    parseUnifiedDiff_empty
  by simp

section \<open>Tool-call start information\<close>

abbreviation DQ :: char where
  "DQ \<equiv> CHR 0x22"

text \<open>The tool kinds of the protocol library.\<close>

datatype ToolKind =
  ToolKindRead
| ToolKindEdit
| ToolKindDelete
| ToolKindMove
| ToolKindSearch
| ToolKindExecute
| ToolKindThink
| ToolKindFetch
| ToolKindSwitchMode
| ToolKindOther

text \<open>
  The content blocks that \<open>toolInfoFromToolUse\<close> builds: \<open>acp.ToolContent(acp.TextBlock(t))\<close>,
  and \<open>acp.ToolDiffContent(path, newText, oldText...)\<close> whose old text is optional.
\<close>

datatype ToolCallContent =
  TextContent string
| DiffContent string string "string option"

record ToolCallLocation =
  Path :: string
  Line :: "int option"

record ToolInfo =
  Title :: string
  Kind :: ToolKind
  Content' :: "ToolCallContent list"
  Locations :: "ToolCallLocation list"

text \<open>
  What the input helpers take from outside the repository: the conversion \<open>int(n)\<close> of a
  \<open>float64\<close>, \<open>json.Number.Int64\<close> (\<open>None\<close> when it returns an error) and
  \<open>json.MarshalIndent(input, "", "  ")\<close> (\<open>None\<close> when it returns an error).
\<close>

record 'f stdlib =
  float64_to_int :: "'f \<Rightarrow> int"
  jsonNumber_Int64 :: "string \<Rightarrow> int option"
  json_MarshalIndent :: "'f input \<Rightarrow> string option"

definition inputStr :: "'f input \<Rightarrow> string \<Rightarrow> string" where
  "inputStr input key = (case input key of Some (AString s) \<Rightarrow> s | _ \<Rightarrow> [])"

text \<open>\<open>inputInt\<close> returns a value and \<open>ok\<close>; \<open>None\<close> stands for \<open>(0, false)\<close>.\<close>

definition inputInt :: "'f stdlib \<Rightarrow> 'f input \<Rightarrow> string \<Rightarrow> int option" where
  "inputInt lib input key =
     (case input key of
        Some (AFloat64 n) \<Rightarrow> Some (float64_to_int lib n)
      | Some (AInt n) \<Rightarrow> Some n
      | Some (AJsonNumber n) \<Rightarrow> jsonNumber_Int64 lib n
      | _ \<Rightarrow> None)"

definition inputBool :: "'f input \<Rightarrow> string \<Rightarrow> bool" where
  "inputBool input key = (case input key of Some (ABool b) \<Rightarrow> b | _ \<Rightarrow> False)"

text \<open>\<open>inputStrSlice\<close>: the strings of an array value; the \<open>nil\<close> result is the empty list.\<close>

definition inputStrSlice :: "'f input \<Rightarrow> string \<Rightarrow> string list" where
  "inputStrSlice input key =
     (case input key of
        Some (ASlice arr) \<Rightarrow>
          concat (map (\<lambda>item. case item of AString s \<Rightarrow> [s] | _ \<Rightarrow> []) arr)
      | _ \<Rightarrow> [])"

text \<open>\<open>strings.ReplaceAll(s, old, new)\<close> for a one-byte \<open>old\<close>.\<close>

definition strings_ReplaceAll :: "string \<Rightarrow> char \<Rightarrow> string \<Rightarrow> string" where
  "strings_ReplaceAll s old new = concat (map (\<lambda>c. if c = old then new else [c]) s)"

text \<open>The location list of the two file-read cases.\<close>

definition readLocations :: "'f stdlib \<Rightarrow> 'f input \<Rightarrow> string \<Rightarrow> ToolCallLocation list" where
  "readLocations lib input filePath =
     (if filePath \<noteq> [] then
        [\<lparr>Path = filePath,
          Line = (case inputInt lib input ''offset'' of
                    Some offset \<Rightarrow> Some offset
                  | None \<Rightarrow> Some 0)\<rparr>]
      else [])"

text \<open>The title of the \<open>Grep\<close> case, flag by flag in the order of the source.\<close>

definition grepLabel :: "'f stdlib \<Rightarrow> 'f input \<Rightarrow> string" where
  "grepLabel lib input =
     (let label = ''grep'';
          label = (if inputBool input ''-i'' then label @ '' -i'' else label);
          label = (if inputBool input ''-n'' then label @ '' -n'' else label);
          label = (case inputInt lib input ''-A'' of
                     Some a \<Rightarrow> label @ '' -A '' @ fmt_d a | None \<Rightarrow> label);
          label = (case inputInt lib input ''-B'' of
                     Some b \<Rightarrow> label @ '' -B '' @ fmt_d b | None \<Rightarrow> label);
          label = (case inputInt lib input ''-C'' of
                     Some c \<Rightarrow> label @ '' -C '' @ fmt_d c | None \<Rightarrow> label);
          label = (let om = inputStr input ''output_mode''
                   in if om \<noteq> [] then
                        (if om = ''FilesWithMatches'' then label @ '' -l''
                         else if om = ''Count'' then label @ '' -c''
                         else label)
                      else label);
          label = (case inputInt lib input ''head_limit'' of
                     Some hl \<Rightarrow> label @ '' | head -'' @ fmt_d hl | None \<Rightarrow> label);
          label = (let g = inputStr input ''glob''
                   in if g \<noteq> [] then label @ '' --include='' @ [DQ] @ g @ [DQ] else label);
          label = (let t = inputStr input ''type''
                   in if t \<noteq> [] then label @ '' --type='' @ t else label);
          label = (if inputBool input ''multiline'' then label @ '' -P'' else label);
          label = (let pat = inputStr input ''pattern''
                   in if pat \<noteq> [] then label @ '' '' @ [DQ] @ pat @ [DQ] else label);
          label = (let p = inputStr input ''path''
                   in if p \<noteq> [] then label @ '' '' @ p else label)
      in label)"

text \<open>The title of the \<open>TodoWrite\<close> case.\<close>

definition todoTitle :: "'f input \<Rightarrow> string" where
  "todoTitle input =
     (case input ''todos'' of
        Some (ASlice todos) \<Rightarrow>
          (let parts = concat (map (\<lambda>t. case t of
                                          AMap m \<Rightarrow> (let c = inputStr m ''content''
                                                     in if c \<noteq> [] then [c] else [])
                                        | _ \<Rightarrow> []) todos)
           in if length parts > 0 then ''Update TODOs: '' @ strings_Join parts '', ''
              else ''Update TODOs'')
      | _ \<Rightarrow> ''Update TODOs'')"

text \<open>
  \<open>toolInfoFromToolUse\<close>: the \<open>switch\<close> over the tool name, case by case in the order of the
  source. The integer arithmetic of the read title is Go's 64-bit \<open>int\<close>, which wraps.
\<close>

definition toolInfoFromToolUse :: "'f stdlib \<Rightarrow> string \<Rightarrow> 'f input \<Rightarrow> ToolInfo" where
  "toolInfoFromToolUse lib name input =
     (if name = ''Task'' then
        \<lparr>Title = (let d = inputStr input ''description'' in if d \<noteq> [] then d else ''Task''),
         Kind = ToolKindThink,
         Content' = (let p = inputStr input ''prompt'' in if p \<noteq> [] then [TextContent p] else []),
         Locations = []\<rparr>
      else if name = ''NotebookRead'' then
        (let path = inputStr input ''notebook_path''
         in \<lparr>Title = (if path \<noteq> [] then ''Read Notebook '' @ path else ''Read Notebook''),
             Kind = ToolKindRead,
             Content' = [],
             Locations = (if path \<noteq> [] then [\<lparr>Path = path, Line = None\<rparr>] else [])\<rparr>)
      else if name = ''NotebookEdit'' then
        (let path = inputStr input ''notebook_path''
         in \<lparr>Title = (if path \<noteq> [] then ''Edit Notebook '' @ path else ''Edit Notebook''),
             Kind = ToolKindEdit,
             Content' = (let src = inputStr input ''new_source''
                         in if src \<noteq> [] then [TextContent src] else []),
             Locations = (if path \<noteq> [] then [\<lparr>Path = path, Line = None\<rparr>] else [])\<rparr>)
      else if name = ''Bash'' \<or> name = ACPToolNamePrefix @ ''Bash'' then
        (let cmd = inputStr input ''command''
         in \<lparr>Title = (if cmd \<noteq> []
                       then [BQ] @ strings_ReplaceAll cmd BQ [CHR 0x5C, BQ] @ [BQ]
                       else ''Terminal''),
             Kind = ToolKindExecute,
             Content' = (let d = inputStr input ''description''
                         in if d \<noteq> [] then [TextContent d] else []),
             Locations = []\<rparr>)
      else if name = ''BashOutput'' \<or> name = ACPToolNamePrefix @ ''BashOutput'' then
        \<lparr>Title = ''Tail Logs'', Kind = ToolKindExecute, Content' = [], Locations = []\<rparr>
      else if name = ''KillShell'' \<or> name = ACPToolNamePrefix @ ''KillShell'' then
        \<lparr>Title = ''Kill Process'', Kind = ToolKindExecute, Content' = [], Locations = []\<rparr>
      else if name = ACPToolNamePrefix @ ''Read'' then
        (let filePath = inputStr input ''file_path'';
             limit = inputInt lib input ''limit'';
             offset = inputInt lib input ''offset'';
             lineRange =
               (case limit of
                  Some lim \<Rightarrow>
                    if lim > 0 then
                      (let start = (case offset of Some off \<Rightarrow> wrap64 (off + 1) | None \<Rightarrow> 1)
                       in '' ('' @ fmt_d start @ '' - ''
                          @ fmt_d (wrap64 (wrap64 (start + lim) - 1)) @ '')'')
                    else (case offset of
                            Some off \<Rightarrow>
                              if off > 0 then '' (from line '' @ fmt_d (wrap64 (off + 1)) @ '')''
                              else []
                          | None \<Rightarrow> [])
                | None \<Rightarrow>
                    (case offset of
                       Some off \<Rightarrow>
                         if off > 0 then '' (from line '' @ fmt_d (wrap64 (off + 1)) @ '')''
                         else []
                     | None \<Rightarrow> []))
         in \<lparr>Title = ''Read '' @ (if filePath \<noteq> [] then filePath else ''File'') @ lineRange,
             Kind = ToolKindRead,
             Content' = [],
             Locations = readLocations lib input filePath\<rparr>)
      else if name = ''Read'' then
        (let filePath = inputStr input ''file_path''
         in \<lparr>Title = ''Read File'',
             Kind = ToolKindRead,
             Content' = [],
             Locations = readLocations lib input filePath\<rparr>)
      else if name = ''LS'' then
        (let path = inputStr input ''path''
         in \<lparr>Title = ''List the '' @ (if path \<noteq> [] then [BQ] @ path @ [BQ] else ''current'')
                       @ '' directory'' @ [CHR 0x27] @ ''s contents'',
             Kind = ToolKindSearch,
             Content' = [],
             Locations = []\<rparr>)
      else if name = ACPToolNamePrefix @ ''Edit'' \<or> name = ''Edit'' then
        (let filePath = inputStr input ''file_path''
         in \<lparr>Title = (if filePath \<noteq> [] then ''Edit '' @ [BQ] @ filePath @ [BQ] else ''Edit''),
             Kind = ToolKindEdit,
             Content' =
               (if filePath \<noteq> [] then
                  (let newStr = inputStr input ''new_string''
                   in if input ''old_string'' \<noteq> None
                      then [DiffContent filePath newStr (Some (inputStr input ''old_string''))]
                      else [DiffContent filePath newStr None])
                else []),
             Locations = (if filePath \<noteq> [] then [\<lparr>Path = filePath, Line = None\<rparr>] else [])\<rparr>)
      else if name = ACPToolNamePrefix @ ''Write'' then
        (let filePath = inputStr input ''file_path'';
             fileContent = inputStr input ''content''
         in \<lparr>Title = (if filePath \<noteq> [] then ''Write '' @ filePath else ''Write''),
             Kind = ToolKindEdit,
             Content' =
               (if filePath \<noteq> [] then [DiffContent filePath fileContent None]
                else if fileContent \<noteq> [] then [TextContent fileContent]
                else []),
             Locations = (if filePath \<noteq> [] then [\<lparr>Path = filePath, Line = None\<rparr>] else [])\<rparr>)
      else if name = ''Write'' then
        (let filePath = inputStr input ''file_path'';
             fileContent = inputStr input ''content''
         in \<lparr>Title = (if filePath \<noteq> [] then ''Write '' @ filePath else ''Write''),
             Kind = ToolKindEdit,
             Content' = (if filePath \<noteq> [] then [DiffContent filePath fileContent None] else []),
             Locations = (if filePath \<noteq> [] then [\<lparr>Path = filePath, Line = None\<rparr>] else [])\<rparr>)
      else if name = ''Glob'' then
        (let label = ''Find'';
             label = (let p = inputStr input ''path''
                      in if p \<noteq> [] then label @ '' '' @ [BQ] @ p @ [BQ] else label);
             label = (let pat = inputStr input ''pattern''
                      in if pat \<noteq> [] then label @ '' '' @ [BQ] @ pat @ [BQ] else label)
         in \<lparr>Title = label,
             Kind = ToolKindSearch,
             Content' = [],
             Locations = (let p = inputStr input ''path''
                          in if p \<noteq> [] then [\<lparr>Path = p, Line = None\<rparr>] else [])\<rparr>)
      else if name = ''Grep'' then
        \<lparr>Title = grepLabel lib input, Kind = ToolKindSearch, Content' = [], Locations = []\<rparr>
      else if name = ''WebFetch'' then
        (let url = inputStr input ''url''
         in \<lparr>Title = (if url \<noteq> [] then ''Fetch '' @ url else ''Fetch''),
             Kind = ToolKindFetch,
             Content' = (let p = inputStr input ''prompt''
                         in if p \<noteq> [] then [TextContent p] else []),
             Locations = []\<rparr>)
      else if name = ''WebSearch'' then
        (let query = inputStr input ''query'';
             label = [DQ] @ query @ [DQ];
             label = (let domains = inputStrSlice input ''allowed_domains''
                      in if length domains > 0
                         then label @ '' (allowed: '' @ strings_Join domains '', '' @ '')''
                         else label);
             label = (let domains = inputStrSlice input ''blocked_domains''
                      in if length domains > 0
                         then label @ '' (blocked: '' @ strings_Join domains '', '' @ '')''
                         else label)
         in \<lparr>Title = label, Kind = ToolKindFetch, Content' = [], Locations = []\<rparr>)
      else if name = ''TodoWrite'' then
        \<lparr>Title = todoTitle input, Kind = ToolKindThink, Content' = [], Locations = []\<rparr>
      else if name = ''ExitPlanMode'' then
        \<lparr>Title = ''Ready to code?'',
         Kind = ToolKindSwitchMode,
         Content' = (let p = inputStr input ''plan'' in if p \<noteq> [] then [TextContent p] else []),
         Locations = []\<rparr>
      else if name = ''Other'' then
        (let output = (case json_MarshalIndent lib input of
                         None \<Rightarrow> ''{}''
                       | Some data \<Rightarrow> data)
         in \<lparr>Title = (if name = [] then ''Unknown Tool'' else name),
             Kind = ToolKindOther,
             Content' = [TextContent (''```json'' @ [NL] @ output @ ''```'')],
             Locations = []\<rparr>)
      else
        \<lparr>Title = (if name = [] then ''Unknown Tool'' else name),
         Kind = ToolKindOther,
         Content' = [],
         Locations = []\<rparr>)"


text \<open>The tool names that have a case of their own in the \<open>switch\<close>.\<close>

definition toolNameCases :: "string list" where
  "toolNameCases =
     [''Task'', ''NotebookRead'', ''NotebookEdit'',
      ''Bash'', ACPToolNamePrefix @ ''Bash'',
      ''BashOutput'', ACPToolNamePrefix @ ''BashOutput'',
      ''KillShell'', ACPToolNamePrefix @ ''KillShell'',
      ACPToolNamePrefix @ ''Read'', ''Read'', ''LS'',
      ACPToolNamePrefix @ ''Edit'', ''Edit'',
      ACPToolNamePrefix @ ''Write'', ''Write'',
      ''Glob'', ''Grep'', ''WebFetch'', ''WebSearch'', ''TodoWrite'', ''ExitPlanMode'',
      ''Other'']"

text \<open>
  A library instance for the examples, whose inputs hold no number: marshalling the empty
  input gives \<open>{}\<close>.
\<close>

definition example_stdlib :: "unit stdlib" where
  "example_stdlib =
     \<lparr>float64_to_int = (\<lambda>n. 0),
      jsonNumber_Int64 = (\<lambda>n. None),
      json_MarshalIndent = (\<lambda>input. Some ''{}'')\<rparr>"

subsection \<open>The fallback cases\<close>

lemma toolInfoFromToolUse_default:
  assumes "name \<notin> set toolNameCases"
  shows "toolInfoFromToolUse lib name input =
           \<lparr>Title = (if name = [] then ''Unknown Tool'' else name), Kind = ToolKindOther,
            Content' = [], Locations = []\<rparr>"
  using assms by (simp add: toolInfoFromToolUse_def toolNameCases_def)

lemma toolInfoFromToolUse_Other:
  "toolInfoFromToolUse lib ''Other'' input =
     \<lparr>Title = ''Other'', Kind = ToolKindOther,
      Content' = [TextContent (''```json'' @ [NL]
                   @ (case json_MarshalIndent lib input of None \<Rightarrow> ''{}'' | Some data \<Rightarrow> data)
                   @ ''```'')],
      Locations = []\<rparr>"
  by (simp add: toolInfoFromToolUse_def ACPToolNamePrefix_def)

text \<open>
  Claim C8 as stated fails. The name \<open>SomeUnknownTool\<close> has no case in the table; its tool-call
  start has the kind other and the name as title, but its content is empty: the raw input is
  not dumped. The blank name gets the title \<open>Unknown Tool\<close>, again with no content.
\<close>

theorem toolInfoFromToolUse_unmatched_counterexample:
  "toolInfoFromToolUse example_stdlib ''SomeUnknownTool'' Map.empty
     = \<lparr>Title = ''SomeUnknownTool'', Kind = ToolKindOther, Content' = [], Locations = []\<rparr>
   \<and> toolInfoFromToolUse example_stdlib [] Map.empty
     = \<lparr>Title = ''Unknown Tool'', Kind = ToolKindOther, Content' = [], Locations = []\<rparr>
   \<and> json_MarshalIndent example_stdlib Map.empty = Some ''{}''"
  by (simp add: toolInfoFromToolUse_def ACPToolNamePrefix_def example_stdlib_def)

text \<open>
  Claim C8, amended. For every tool name that has no case in the start-mapping table, the
  tool-call start has the kind other, the tool name as title, or \<open>Unknown Tool\<close> when the name
  is blank, and no content. The raw input is dumped as formatted JSON text, in a \<open>json\<close> code
  fence, only for the tool name \<open>Other\<close>, which has a case of its own.
\<close>

theorem toolInfoFromToolUse_fallback:
  "(name \<notin> set toolNameCases \<longrightarrow>
      toolInfoFromToolUse lib name input =
        \<lparr>Title = (if name = [] then ''Unknown Tool'' else name), Kind = ToolKindOther,
         Content' = [], Locations = []\<rparr>)
   \<and> toolInfoFromToolUse lib ''Other'' input =
        \<lparr>Title = ''Other'', Kind = ToolKindOther,
         Content' = [TextContent (''```json'' @ [NL]
                      @ (case json_MarshalIndent lib input of None \<Rightarrow> ''{}'' | Some data \<Rightarrow> data)
                      @ ''```'')],
         Locations = []\<rparr>"
  using toolInfoFromToolUse_default toolInfoFromToolUse_Other by blast

theorem toolInfoFromToolUse_fallback_witness:
  "[] \<notin> set toolNameCases
   \<and> toolInfoFromToolUse example_stdlib [] Map.empty
       = \<lparr>Title = ''Unknown Tool'', Kind = ToolKindOther, Content' = [], Locations = []\<rparr>
   \<and> toolInfoFromToolUse example_stdlib ''Other'' Map.empty
       = \<lparr>Title = ''Other'', Kind = ToolKindOther,
          Content' = [TextContent (''```json'' @ [NL] @ ''{}'' @ ''```'')], Locations = []\<rparr>"
proof -
  have n: "[] \<notin> set toolNameCases"
    by (simp add: toolNameCases_def ACPToolNamePrefix_def)
  have m: "json_MarshalIndent example_stdlib Map.empty = Some ''{}''"
    by (simp add: example_stdlib_def)
  from n m toolInfoFromToolUse_fallback [of "[]" example_stdlib Map.empty] show ?thesis
    by simp
qed

end
